theory Spec2Isabelle
  imports Main "HOL-Library.Sublist"
begin

section \<open>Data model of index.js\<close>

text \<open>
  Errors are values. \<open>FsError code\<close> is a failed \<open>fs.stat\<close> or \<open>fs.readFile\<close> with its
  \<open>error.code\<close> (\<open>ENOENT\<close>, \<open>EACCES\<close>, ...); \<open>TypeError\<close> is what JavaScript throws on a
  property read of \<open>undefined\<close> or on a non-string handed to the \<open>path\<close> module;
  \<open>NoPlatformsError\<close> and \<open>NoAssetsError\<close> are the two \<open>new Error(...)\<close> of the file.
\<close>

datatype error =
    FsError string
  | TypeError
  | ParseError string
  | ResizeError string
  | NoPlatformsError
  | NoAssetsError

text \<open>The tree that \<open>xml2js\<close> hands back, as far as \<open>result.widget.name[0]\<close> looks at it.\<close>

datatype jsval = Undefined | Str string | Arr "jsval list" | Obj "(string \<times> jsval) list"

text \<open>
  An entry of \<open>iconAssets\<close> or \<open>splashAssets\<close> in platforms.json: icons carry \<open>size\<close>,
  splashes carry \<open>width\<close> and \<open>height\<close>; a key that is absent reads as \<open>undefined\<close> (None).
\<close>

record asset =
  asset_name :: string
  asset_size :: "int option"
  asset_width :: "int option"
  asset_height :: "int option"

text \<open>An entry of platforms.json (the platform descriptor).\<close>

record platform =
  name :: string
  iconPath :: "string option"
  splashPath :: "string option"
  iconAssets :: "asset list option"
  splashAssets :: "asset list option"

text \<open>
  What \<open>getPlatforms\<close> builds with \<open>_.extend(Object.create(platform), {...})\<close>: the descriptor
  as prototype, and three own properties, two of which shadow the descriptor's templates.
\<close>

record resolved =
  descriptor :: platform
  isAdded :: bool
  own_iconPath :: string
  own_splashPath :: string

text \<open>The object handed to \<open>ig.resize\<close>.\<close>

record resize_opts =
  srcPath :: "string option"
  dstPath :: string
  quality :: nat
  format :: string
  width :: "int option"
  height :: "int option"

text \<open>The global \<open>program\<close> (commander): the three paths; \<open>null\<close> is None.\<close>

record program =
  icon :: "string option"
  splash :: "string option"
  config :: "string option"

datatype art_type = Icon | Splash

datatype param = Art art_type | Config

text \<open>
  Everything the run does to the outside world, in the order it does it: console output
  (\<open>display.*\<close> and \<open>console.log('')\<close>), and the calls of \<open>fs.stat\<close>, \<open>fs.readFile\<close> and
  \<open>ig.resize\<close> together with what each call answered.
\<close>

datatype event =
    Header string
  | Success string
  | Warn string
  | ErrorMsg error
  | Newline
  | Stat string "error + bool"
  | ReadFile "string option" "error option"
  | Resize resize_opts "error option"

record state =
  prog :: program
  log :: "event list"

text \<open>
  The collaborators index.js calls but does not define. The file system and ImageMagick
  answer in the light of everything that happened before (the log so far), so that
  "the second resize fails" or "the file vanished in between" are environments too.
  \<open>fs_stat\<close> answers \<open>stat.isDirectory()\<close>. The \<open>path\<close> functions and the XML parser are pure.
  \<open>read_answered h t\<close> is the timing of the file system for the one read nobody waits
  for (validArtAssets below): whether, with the log at \<open>h\<close>, the read of the icon or
  splash source has been answered.
\<close>

record env =
  platformInfo :: "platform list"
  fs_stat :: "event list \<Rightarrow> string \<Rightarrow> error + bool"
  fs_readFile :: "event list \<Rightarrow> string \<Rightarrow> error + string"
  parser_parseString :: "string \<Rightarrow> error + jsval"
  ig_resize :: "event list \<Rightarrow> resize_opts \<Rightarrow> error option"
  path_dirname :: "string \<Rightarrow> string"
  path_join :: "string \<Rightarrow> string \<Rightarrow> string"
  path_resolve :: "string \<Rightarrow> string \<Rightarrow> string"
  read_answered :: "event list \<Rightarrow> art_type \<Rightarrow> bool"

definition emit :: "event \<Rightarrow> state \<Rightarrow> state" where
  "emit ev st = st\<lparr>log := log st @ [ev]\<rparr>"

definition new_events :: "state \<Rightarrow> state \<Rightarrow> event list" where
  "new_events st st' = drop (length (log st)) (log st')"

fun resize_calls :: "event list \<Rightarrow> resize_opts list" where
  "resize_calls [] = []"
| "resize_calls (Resize opts r # evs) = opts # resize_calls evs"
| "resize_calls (ev # evs) = resize_calls evs"

section \<open>Path templating: processPath\<close>

text \<open>
  \<open>projectNameRE = /\$PROJECT_NAME/g\<close> matches this literal text, everywhere in the subject.
\<close>

definition projectNameRE :: string where
  "projectNameRE = ''$PROJECT_NAME''"

text \<open>
  \<open>String.prototype.replace\<close> with a string as second argument does not paste that string
  as it is: it expands \<open>$$\<close> to \<open>$\<close>, \<open>$&\<close> to the matched text, \<open>$`\<close> to the text before the
  match and \<open>$'\<close> to the text after it. The regular expression has no group, so \<open>$1\<close> ... \<open>$99\<close>
  and \<open>$<\<close> stay as they are. Arguments: matched text, text before, text after, replacement.
\<close>

fun getSubstitution :: "string \<Rightarrow> string \<Rightarrow> string \<Rightarrow> string \<Rightarrow> string" where
  "getSubstitution m b a [] = []"
| "getSubstitution m b a [c] = [c]"
| "getSubstitution m b a (c # d # r) =
     (if c = CHR ''$'' then
        (if d = CHR ''$'' then CHR ''$'' # getSubstitution m b a r
         else if d = CHR ''&'' then m @ getSubstitution m b a r
         else if d = CHR 0x60 then b @ getSubstitution m b a r
         else if d = CHR 0x27 then a @ getSubstitution m b a r
         else c # getSubstitution m b a (d # r))
      else c # getSubstitution m b a (d # r))"

text \<open>
  The global replace, left to right: \<open>b\<close> is the part of the subject already passed,
  the second argument the part still to scan.
\<close>

function replace_from :: "string \<Rightarrow> string \<Rightarrow> string \<Rightarrow> string" where
  "replace_from b [] r = []"
| "replace_from b (c # cs) r =
     (if prefix projectNameRE (c # cs)
      then getSubstitution projectNameRE b (drop (length projectNameRE) (c # cs)) r
           @ replace_from (b @ projectNameRE) (drop (length projectNameRE) (c # cs)) r
      else c # replace_from (b @ [c]) cs r)"
  by pat_completeness auto
termination
  by (relation "measure (\<lambda>(b, s, r). length s)") (auto simp: projectNameRE_def)

definition processPath :: "string \<Rightarrow> string \<Rightarrow> string" where
  "processPath path projectName = replace_from [] path projectName"

section \<open>JavaScript values and truthiness\<close>

text \<open>\<open>program[type] && ...\<close>: \<open>null\<close> and the empty string are falsy.\<close>

definition truthy :: "string option \<Rightarrow> bool" where
  "truthy v = (case v of None \<Rightarrow> False | Some s \<Rightarrow> s \<noteq> [])"

text \<open>\<open>'...' + location\<close>: string concatenation writes \<open>null\<close> out.\<close>

definition js_str :: "string option \<Rightarrow> string" where
  "js_str v = (case v of None \<Rightarrow> ''null'' | Some s \<Rightarrow> s)"

text \<open>\<open>message || fallback\<close> for an optional string argument.\<close>

definition or_default :: "string option \<Rightarrow> string \<Rightarrow> string" where
  "or_default m d = (case m of None \<Rightarrow> d | Some s \<Rightarrow> if s = [] then d else s)"

text \<open>\<open>Array.prototype.join(sep)\<close> on strings.\<close>

fun js_join :: "string \<Rightarrow> string list \<Rightarrow> string" where
  "js_join sep [] = []"
| "js_join sep [x] = x"
| "js_join sep (x # y # r) = x @ sep @ js_join sep (y # r)"

text \<open>
  \<open>ToString\<close>, which \<open>replace\<close> applies to its second argument: an array joins its
  elements with commas (\<open>undefined\<close> elements as empty text), a plain object is
  \<open>[object Object]\<close>.
\<close>

fun js_toString :: "jsval \<Rightarrow> string" where
  "js_toString Undefined = ''undefined''"
| "js_toString (Str s) = s"
| "js_toString (Arr xs) =
     js_join '','' (map (\<lambda>x. if x = Undefined then [] else js_toString x) xs)"
| "js_toString (Obj kvs) = ''[object Object]''"

text \<open>\<open>projectName || ''\<close>: \<open>undefined\<close> and the empty string are falsy, arrays and objects are not.\<close>

definition or_empty :: "jsval \<Rightarrow> jsval" where
  "or_empty v = (if v = Undefined \<or> v = Str [] then Str [] else v)"

text \<open>
  A property read \<open>v.key\<close>: a TypeError on \<open>undefined\<close>, \<open>undefined\<close> where the key is
  absent. Arrays and strings have no property called \<open>widget\<close> or \<open>name\<close>, the only
  two keys read this way.
\<close>

fun js_prop :: "jsval \<Rightarrow> string \<Rightarrow> error + jsval" where
  "js_prop Undefined key = Inl TypeError"
| "js_prop (Obj kvs) key = Inr (case map_of kvs key of None \<Rightarrow> Undefined | Some v \<Rightarrow> v)"
| "js_prop (Arr xs) key = Inr Undefined"
| "js_prop (Str s) key = Inr Undefined"

text \<open>The index read \<open>v[0]\<close>.\<close>

fun index0 :: "jsval \<Rightarrow> error + jsval" where
  "index0 Undefined = Inl TypeError"
| "index0 (Arr xs) = Inr (case xs of [] \<Rightarrow> Undefined | x # _ \<Rightarrow> x)"
| "index0 (Str s) = Inr (case s of [] \<Rightarrow> Undefined | c # _ \<Rightarrow> Str [c])"
| "index0 (Obj kvs) = Inr (case map_of kvs ''0'' of None \<Rightarrow> Undefined | Some v \<Rightarrow> v)"

section \<open>The global program object\<close>

fun type_name :: "art_type \<Rightarrow> string" where
  "type_name Icon = ''icon''"
| "type_name Splash = ''splash''"

fun param_name :: "param \<Rightarrow> string" where
  "param_name (Art t) = type_name t"
| "param_name Config = ''config''"

text \<open>\<open>program[type]\<close>, for the two asset types and for all three parameters.\<close>

fun source :: "program \<Rightarrow> art_type \<Rightarrow> string option" where
  "source p Icon = icon p"
| "source p Splash = splash p"

fun param_value :: "program \<Rightarrow> param \<Rightarrow> string option" where
  "param_value p (Art t) = source p t"
| "param_value p Config = config p"

text \<open>\<open>program[type] = null\<close>.\<close>

fun set_null :: "param \<Rightarrow> program \<Rightarrow> program" where
  "set_null (Art Icon) p = p\<lparr>icon := None\<rparr>"
| "set_null (Art Splash) p = p\<lparr>splash := None\<rparr>"
| "set_null Config p = p\<lparr>config := None\<rparr>"

text \<open>\<open>platform[type+'Assets']\<close> (through the prototype) and \<open>platform[type+'Path']\<close> (own).\<close>

fun assets_of :: "art_type \<Rightarrow> resolved \<Rightarrow> asset list option" where
  "assets_of Icon p = iconAssets (descriptor p)"
| "assets_of Splash p = splashAssets (descriptor p)"

fun path_of :: "art_type \<Rightarrow> resolved \<Rightarrow> string" where
  "path_of Icon p = own_iconPath p"
| "path_of Splash p = own_splashPath p"

section \<open>Platform resolution: getPlatforms\<close>

definition rootDirectories :: "string \<Rightarrow> string option" where
  "rootDirectories = map_of
     [(''android'', ''platforms/android''), (''ios'', ''platforms/ios''), (''www'', ''www'')]"

text \<open>
  The callback of \<open>platformInfo.map\<close>, platform after platform, as far as it runs at
  once: \<open>path.join\<close> throws a TypeError when \<open>rootDirectories\<close> has no entry for the name,
  and that ends the map (no \<open>fs.stat\<close> has been called by then: \<open>Q.nfcall\<close> only queues the
  call); otherwise the platform's root and its two output paths are computed.
\<close>

fun platformPaths ::
  "env \<Rightarrow> string \<Rightarrow> string \<Rightarrow> platform list \<Rightarrow> error + (platform \<times> string \<times> string \<times> string) list"
where
  "platformPaths env projectRoot projectName [] = Inr []"
| "platformPaths env projectRoot projectName (platform # rest) =
     (case rootDirectories (name platform) of
        None \<Rightarrow> Inl TypeError
      | Some platformRoot \<Rightarrow>
          (let platformPath = path_join env projectRoot platformRoot;
               iconPath' = processPath (case iconPath platform of None \<Rightarrow> [] | Some t \<Rightarrow> t) projectName;
               splashPath' = processPath (case splashPath platform of None \<Rightarrow> [] | Some t \<Rightarrow> t) projectName
           in case platformPaths env projectRoot projectName rest of
                Inl e \<Rightarrow> Inl e
              | Inr paths \<Rightarrow> Inr ((platform, platformPath, iconPath', splashPath') # paths)))"

text \<open>
  The queued \<open>fs.stat\<close> calls and their answers, in the order of the platforms: a
  platform's promise is either rejected with the error of \<open>fs.stat\<close> (there is no
  handler for it) or fulfilled with the resolved platform.
\<close>

fun statAll ::
  "env \<Rightarrow> (platform \<times> string \<times> string \<times> string) list \<Rightarrow> state \<Rightarrow> (error + resolved) list \<times> state"
where
  "statAll env [] st = ([], st)"
| "statAll env ((platform, platformPath, iconPath', splashPath') # rest) st =
     (let r = fs_stat env (log st) platformPath;
          st1 = emit (Stat platformPath r) st;
          promise = (case r of
                       Inl e \<Rightarrow> Inl e
                     | Inr isDirectory \<Rightarrow>
                         Inr \<lparr>descriptor = platform, isAdded = isDirectory,
                              own_iconPath = path_join env platformPath iconPath',
                              own_splashPath = path_join env platformPath splashPath'\<rparr>)
      in case statAll env rest st1 of
           (promises, st2) \<Rightarrow> (promise # promises, st2))"

text \<open>
  \<open>Q.all\<close>: fulfilled with all the values in order, or rejected as soon as one promise
  is. When several are rejected the model reports the first in list order.
\<close>

fun Q_all :: "(error + 'a) list \<Rightarrow> error + 'a list" where
  "Q_all [] = Inr []"
| "Q_all (Inl e # ps) = Inl e"
| "Q_all (Inr x # ps) = (case Q_all ps of Inl e \<Rightarrow> Inl e | Inr xs \<Rightarrow> Inr (x # xs))"

text \<open>
  The outer sum is a synchronous throw of \<open>getPlatforms\<close> itself (\<open>path.dirname\<close> or
  \<open>path.join\<close> on a non-string), the inner one the returned promise: rejected or fulfilled.
\<close>

definition getPlatforms ::
  "env \<Rightarrow> jsval \<Rightarrow> state \<Rightarrow> (error + (error + resolved list)) \<times> state"
where
  "getPlatforms env projectName st =
     (let projectName' = js_toString (or_empty projectName) in
      case config (prog st) of
        None \<Rightarrow> (Inl TypeError, st)
      | Some c \<Rightarrow>
          (case platformPaths env (path_dirname env c) projectName' (platformInfo env) of
             Inl e \<Rightarrow> (Inl e, st)
           | Inr paths \<Rightarrow>
               (case statAll env paths st of
                  (promises, st1) \<Rightarrow> (Inr (Q_all promises), st1))))"

section \<open>The project name: getProjectName\<close>

text \<open>
  \<open>fs.readFile(program.config)\<close>, then \<open>parser.parseString\<close>, then
  \<open>result.widget.name[0]\<close>; a throw inside a \<open>then\<close> callback rejects the promise.
\<close>

definition getProjectName :: "env \<Rightarrow> state \<Rightarrow> (error + jsval) \<times> state" where
  "getProjectName env st =
     (let r = (case config (prog st) of
                 None \<Rightarrow> Inl TypeError
               | Some c \<Rightarrow> fs_readFile env (log st) c);
          st1 = emit (ReadFile (config (prog st)) (case r of Inl e \<Rightarrow> Some e | Inr d \<Rightarrow> None)) st
      in case r of
           Inl e \<Rightarrow> (Inl e, st1)
         | Inr data \<Rightarrow>
             (case parser_parseString env data of
                Inl e \<Rightarrow> (Inl e, st1)
              | Inr result \<Rightarrow>
                  (case js_prop result ''widget'' of
                     Inl e \<Rightarrow> (Inl e, st1)
                   | Inr widget \<Rightarrow>
                       (case js_prop widget ''name'' of
                          Inl e \<Rightarrow> (Inl e, st1)
                        | Inr nm \<Rightarrow>
                            (case index0 nm of
                               Inl e \<Rightarrow> (Inl e, st1)
                             | Inr projectName \<Rightarrow> (Inr projectName, st1))))))"

section \<open>Generation\<close>

text \<open>
  \<open>generateArtAsset\<close>: \<open>opts\<close> is \<open>{width, height}\<close> at both call sites, so
  \<open>_.extend(imageMagickOptions, opts)\<close> adds these two keys and overwrites none.
\<close>

definition generateArtAsset ::
  "env \<Rightarrow> string \<Rightarrow> string option \<Rightarrow> string \<Rightarrow> int option \<times> int option \<Rightarrow> state
     \<Rightarrow> (error + unit) \<times> state"
where
  "generateArtAsset env artAssetName src dst opts st =
     (case config (prog st) of
        None \<Rightarrow> (Inl TypeError, st)
      | Some c \<Rightarrow>
          (let projectRoot = path_dirname env c;
               destination = path_resolve env projectRoot dst;
               imageMagickOptions =
                 \<lparr>srcPath = src, dstPath = path_join env destination artAssetName,
                  quality = 1, format = ''png'', width = fst opts, height = snd opts\<rparr>;
               r = ig_resize env (log st) imageMagickOptions;
               st1 = emit (Resize imageMagickOptions r) st
           in case r of
                Some e \<Rightarrow> (Inl e, st1)
              | None \<Rightarrow> (Inr (), emit (Success (artAssetName @ '' created'')) st1)))"

definition generateIcon ::
  "env \<Rightarrow> asset \<Rightarrow> string option \<Rightarrow> string \<Rightarrow> state \<Rightarrow> (error + unit) \<times> state"
where
  "generateIcon env icon' src dst =
     generateArtAsset env (asset_name icon') src dst (asset_size icon', asset_size icon')"

definition generateSplash ::
  "env \<Rightarrow> asset \<Rightarrow> string option \<Rightarrow> string \<Rightarrow> state \<Rightarrow> (error + unit) \<times> state"
where
  "generateSplash env splash' src dst =
     generateArtAsset env (asset_name splash') src dst (asset_width splash', asset_height splash')"

text \<open>
  The \<open>reduce\<close> of \<open>generateArtAssets\<close>: each asset's callback runs only when the
  promise before it was fulfilled, and reads \<open>program[type]\<close> when it runs.
\<close>

fun reduce_assets ::
  "(asset \<Rightarrow> string option \<Rightarrow> string \<Rightarrow> state \<Rightarrow> (error + unit) \<times> state)
     \<Rightarrow> art_type \<Rightarrow> resolved \<Rightarrow> asset list \<Rightarrow> state \<Rightarrow> (error + unit) \<times> state"
where
  "reduce_assets processor type platform [] st = (Inr (), st)"
| "reduce_assets processor type platform (a # rest) st =
     (case processor a (source (prog st) type) (path_of type platform) st of
        (Inl e, st1) \<Rightarrow> (Inl e, st1)
      | (Inr u, st1) \<Rightarrow> reduce_assets processor type platform rest st1)"

definition generateArtAssets ::
  "resolved \<Rightarrow> art_type
     \<Rightarrow> (asset \<Rightarrow> string option \<Rightarrow> string \<Rightarrow> state \<Rightarrow> (error + unit) \<times> state)
     \<Rightarrow> state \<Rightarrow> (error + unit) \<times> state"
where
  "generateArtAssets platform type processor st =
     (let st1 = emit (Header (''Generating '' @ type_name type @ '' assets for ''
                                @ name (descriptor platform))) st
      in case assets_of type platform of
           None \<Rightarrow> (Inl TypeError, st1)
         | Some assets \<Rightarrow> reduce_assets processor type platform assets st1)"

definition generateIcons :: "env \<Rightarrow> resolved \<Rightarrow> state \<Rightarrow> (error + unit) \<times> state" where
  "generateIcons env platform = generateArtAssets platform Icon (generateIcon env)"

definition generateSplashes :: "env \<Rightarrow> resolved \<Rightarrow> state \<Rightarrow> (error + unit) \<times> state" where
  "generateSplashes env platform = generateArtAssets platform Splash (generateSplash env)"

definition processPlatformFor ::
  "art_type \<Rightarrow> resolved \<Rightarrow> (resolved \<Rightarrow> state \<Rightarrow> (error + unit) \<times> state)
     \<Rightarrow> state \<Rightarrow> (error + unit) \<times> state"
where
  "processPlatformFor type platform processor st =
     (let assets = (case assets_of type platform of None \<Rightarrow> [] | Some xs \<Rightarrow> xs)
      in if truthy (source (prog st) type) \<and> length assets \<noteq> 0
         then processor platform st
         else (Inr (), st))"

text \<open>The \<open>reduce\<close> of \<open>generate\<close> over the platforms that are added: icons, then splashes.\<close>

fun reduce_platforms :: "env \<Rightarrow> resolved list \<Rightarrow> state \<Rightarrow> (error + unit) \<times> state" where
  "reduce_platforms env [] st = (Inr (), st)"
| "reduce_platforms env (platform # rest) st =
     (case processPlatformFor Icon platform (generateIcons env) st of
        (Inl e, st1) \<Rightarrow> (Inl e, st1)
      | (Inr u, st1) \<Rightarrow>
          (case processPlatformFor Splash platform (generateSplashes env) st1 of
             (Inl e, st2) \<Rightarrow> (Inl e, st2)
           | (Inr u, st2) \<Rightarrow> reduce_platforms env rest st2))"

definition generate :: "env \<Rightarrow> resolved list \<Rightarrow> state \<Rightarrow> (error + unit) \<times> state" where
  "generate env platforms st = reduce_platforms env (filter isAdded platforms) st"

section \<open>Validation\<close>

definition atLeastOnePlatformFound ::
  "env \<Rightarrow> state \<Rightarrow> (error + (error + unit)) \<times> state"
where
  "atLeastOnePlatformFound env st =
     (case getPlatforms env Undefined st of
        (Inl e, st1) \<Rightarrow> (Inl e, st1)
      | (Inr (Inl e), st1) \<Rightarrow> (Inr (Inl e), st1)
      | (Inr (Inr platforms), st1) \<Rightarrow>
          (let activePlatforms = filter isAdded platforms
           in if length activePlatforms = 0
              then (Inr (Inl NoPlatformsError), st1)
              else (Inr (Inr ()),
                    emit (Success (''platforms found: ''
                            @ js_join '', '' (map (\<lambda>p. name (descriptor p)) activePlatforms))) st1)))"

text \<open>
  \<open>validParamFile\<close>. The handler of \<open>catch\<close> has three ways out: with \<open>warningType\<close> it sets
  \<open>program[type]\<close> to \<open>null\<close>, warns and answers \<open>true\<close>; without it, it answers \<open>false\<close> for
  \<open>ENOENT\<close> and throws any other error again. \<open>errorMessage\<close> is computed and never shown.
\<close>

definition validParamFile ::
  "env \<Rightarrow> param \<Rightarrow> bool \<Rightarrow> string option \<Rightarrow> string option \<Rightarrow> string option \<Rightarrow> state
     \<Rightarrow> (error + bool) \<times> state"
where
  "validParamFile env type warningType successMessage errorMessage warnMessage st =
     (let location = param_value (prog st) type;
          successMessage' = or_default successMessage
                              (param_name type @ '' asset exists at: '' @ js_str location);
          warnMessage' = or_default warnMessage (param_name type @ '' asset was not specified'');
          r = (case location of
                 None \<Rightarrow> Inl TypeError
               | Some l \<Rightarrow> fs_readFile env (log st) l);
          st1 = emit (ReadFile location (case r of Inl e \<Rightarrow> Some e | Inr d \<Rightarrow> None)) st
      in case r of
           Inr data \<Rightarrow> (Inr True, emit (Success successMessage') st1)
         | Inl error \<Rightarrow>
             if warningType
             then (Inr True, emit (Warn warnMessage') (st1\<lparr>prog := set_null type (prog st1)\<rparr>))
             else if error = FsError ''ENOENT'' then (Inr False, st1)
             else (Inl error, st1))"

definition validIconExists :: "env \<Rightarrow> state \<Rightarrow> (error + bool) \<times> state" where
  "validIconExists env = validParamFile env (Art Icon) True None None None"

definition validSplashExists :: "env \<Rightarrow> state \<Rightarrow> (error + bool) \<times> state" where
  "validSplashExists env = validParamFile env (Art Splash) True None None None"

text \<open>
  The promise that \<open>validArtAssets\<close> builds: \<open>Q.all\<close> of the two checks, then the
  \<open>spread\<close> callback with its \<open>throw\<close>. This is what becomes of it when the two reads,
  started together, are answered one after the other, the icon's first: each answer
  is followed at once by its handler.
\<close>

definition validArtAssets_promise :: "env \<Rightarrow> state \<Rightarrow> (error + unit) \<times> state" where
  "validArtAssets_promise env st =
     (case validIconExists env st of
        (ri, st1) \<Rightarrow>
          (case validSplashExists env st1 of
             (rs, st2) \<Rightarrow>
               (case Q_all [ri, rs] of
                  Inl e \<Rightarrow> (Inl e, st2)
                | Inr vs \<Rightarrow>
                    if \<not> vs ! 0 \<and> \<not> vs ! 1 then (Inl NoAssetsError, st2) else (Inr (), st2))))"

text \<open>
  \<open>validArtAssets\<close> has no \<open>return\<close>: it starts the two checks and answers \<open>undefined\<close> at
  once, so the chain goes on whatever becomes of that promise; nothing has been read,
  shown or written to \<open>program\<close> when it returns.
\<close>

definition validArtAssets :: "env \<Rightarrow> state \<Rightarrow> (error + unit) \<times> state" where
  "validArtAssets env st = (Inr (), st)"

text \<open>
  The answer to the read of one source that validArtAssets started, whenever it comes:
  the handlers of validParamFile run (with \<open>warningType = true\<close>), and nobody looks at
  what they answer.
\<close>

definition answer :: "env \<Rightarrow> art_type \<Rightarrow> state \<Rightarrow> state" where
  "answer env t st = snd (validParamFile env (Art t) True None None None st)"

text \<open>
  A moment at which the chain waits for the file system: of the reads still pending,
  those that \<open>read_answered\<close> says are answered by now get their answer, the icon's
  before the splash's; the others stay pending.
\<close>

fun settle :: "env \<Rightarrow> art_type list \<Rightarrow> state \<Rightarrow> art_type list \<times> state" where
  "settle env [] st = ([], st)"
| "settle env (t # ts) st =
     (if read_answered env (log st) t
      then settle env ts (answer env t st)
      else (case settle env ts st of (pending, st') \<Rightarrow> (t # pending, st')))"

definition configFileExists :: "env \<Rightarrow> state \<Rightarrow> (error + bool) \<times> state" where
  "configFileExists env st =
     validParamFile env Config False
       (Some (''cordova'' @ [CHR 0x27] @ ''s '' @ js_str (config (prog st)) @ '' exists''))
       (Some (''cordova'' @ [CHR 0x27] @ ''s '' @ js_str (config (prog st)) @ '' does not exist''))
       None st"

section \<open>The pipeline\<close>

text \<open>
  The stages chained with \<open>then\<close> after \<open>atLeastOnePlatformFound()\<close>: each runs only when
  the one before it was fulfilled; the value a stage answers goes to the next one, which
  uses it (\<open>getPlatforms\<close>, \<open>generate\<close>) or ignores it (the boolean of \<open>configFileExists\<close>).
  A throw of \<open>getPlatforms\<close> inside \<open>then\<close> is a rejection.

  The two reads that validArtAssets started are pending from then on. Their answers can
  arrive while the chain waits for the configuration file, while it waits for the
  probes of the platform roots, before generation starts, or not before the chain has
  ended: the environment decides (\<open>read_answered\<close>), separately for the two. An answer
  that arrives in the middle of generation, between two resize calls, is not modelled.
\<close>

definition stages :: "env \<Rightarrow> state \<Rightarrow> (error + unit) \<times> state" where
  "stages env st =
     (case configFileExists env st of
        (Inl e, st1) \<Rightarrow> (Inl e, st1)
      | (Inr b, st1) \<Rightarrow>
          (case validArtAssets env st1 of
             (Inl e, st2) \<Rightarrow> (Inl e, st2)
           | (Inr u, st2) \<Rightarrow>
               (case settle env [Icon, Splash] st2 of
                  (pending2, st2') \<Rightarrow>
                    (case getProjectName env st2' of
                       (Inl e, st3) \<Rightarrow> (Inl e, st3)
                     | (Inr projectName, st3) \<Rightarrow>
                         (case settle env pending2 st3 of
                            (pending3, st3') \<Rightarrow>
                              (case getPlatforms env projectName st3' of
                                 (Inl e, st4) \<Rightarrow> (Inl e, st4)
                               | (Inr (Inl e), st4) \<Rightarrow> (Inl e, st4)
                               | (Inr (Inr platforms), st4) \<Rightarrow>
                                   (case settle env pending3 st4 of
                                      (pending4, st4') \<Rightarrow> generate env platforms st4')))))))"

text \<open>
  The script itself. \<open>atLeastOnePlatformFound()\<close> is called outside any promise: what it
  throws synchronously is uncaught and ends the process on the spot. Everything else
  ends in the \<open>catch\<close> that shows the error, and in the final empty line. The first
  component is what the run ended with (None: no error). The run of the model ends
  with that line: a read of validArtAssets that is still pending then is answered
  after it and is not in the log.
\<close>

definition run :: "env \<Rightarrow> state \<Rightarrow> error option \<times> state" where
  "run env st =
     (let st0 = emit (Header ''Checking Project, Icon, and Splash'') st
      in case atLeastOnePlatformFound env st0 of
           (Inl e, st1) \<Rightarrow> (Some e, st1)
         | (Inr r, st1) \<Rightarrow>
             (case (case r of Inl e \<Rightarrow> (Inl e, st1) | Inr u \<Rightarrow> stages env st1) of
                (Inl e, st2) \<Rightarrow> (Some e, emit Newline (emit (ErrorMsg e) st2))
              | (Inr u, st2) \<Rightarrow> (None, emit Newline st2)))"

section \<open>Path templating in the words of the specification\<close>

text \<open>
  Every occurrence of the placeholder, left to right, replaced by the project name as
  it is; the rest of the template unchanged.
\<close>

function replace_literal :: "string \<Rightarrow> string \<Rightarrow> string" where
  "replace_literal [] projectName = []"
| "replace_literal (c # cs) projectName =
     (if prefix projectNameRE (c # cs)
      then projectName @ replace_literal (drop (length projectNameRE) (c # cs)) projectName
      else c # replace_literal cs projectName)"
  by pat_completeness auto
termination
  by (relation "measure (\<lambda>(s, n). length s)") (auto simp: projectNameRE_def)

section \<open>What generation is asked to do\<close>

text \<open>
  The option object of one resize call, for configuration path \<open>c\<close>, source \<open>src\<close>, output
  directory \<open>dir\<close>, asset name and dimensions: quality 1, format png, destination the
  output directory (resolved against the project root) joined with the asset's name.
\<close>

definition resize_request ::
  "env \<Rightarrow> string \<Rightarrow> string option \<Rightarrow> string \<Rightarrow> string \<Rightarrow> int option \<times> int option \<Rightarrow> resize_opts"
where
  "resize_request env c src dir nm dims =
     \<lparr>srcPath = src, dstPath = path_join env (path_resolve env (path_dirname env c) dir) nm,
      quality = 1, format = ''png'', width = fst dims, height = snd dims\<rparr>"

text \<open>Target dimensions: an icon is square, a splash has a width and a height.\<close>

fun dimensions :: "art_type \<Rightarrow> asset \<Rightarrow> int option \<times> int option" where
  "dimensions Icon a = (asset_size a, asset_size a)"
| "dimensions Splash a = (asset_width a, asset_height a)"

text \<open>
  The work units of the specification, in its words: one per asset specification, in
  declared order; a platform and type contribute none when the source of that type is
  disabled or the list is empty; icons before splashes; platforms that are added, in
  their order. (Without a configuration path nothing can be requested at all.)
\<close>

definition asset_units ::
  "env \<Rightarrow> program \<Rightarrow> art_type \<Rightarrow> resolved \<Rightarrow> asset list \<Rightarrow> resize_opts list"
where
  "asset_units env p type platform assets =
     (case config p of
        None \<Rightarrow> []
      | Some c \<Rightarrow>
          map (\<lambda>a. resize_request env c (source p type) (path_of type platform)
                     (asset_name a) (dimensions type a)) assets)"

definition phase_units :: "env \<Rightarrow> program \<Rightarrow> art_type \<Rightarrow> resolved \<Rightarrow> resize_opts list" where
  "phase_units env p type platform =
     (if truthy (source p type)
      then asset_units env p type platform
             (case assets_of type platform of None \<Rightarrow> [] | Some xs \<Rightarrow> xs)
      else [])"

definition work_units :: "env \<Rightarrow> program \<Rightarrow> resolved list \<Rightarrow> resize_opts list" where
  "work_units env p platforms =
     concat (map (\<lambda>platform. phase_units env p Icon platform @ phase_units env p Splash platform)
                 (filter isAdded platforms))"

text \<open>A stretch of the log in which no resize failed, and one without any resize.\<close>

definition clean :: "event list \<Rightarrow> bool" where
  "clean evs = (\<forall>opts e. Resize opts (Some e) \<notin> set evs)"

definition calm :: "event list \<Rightarrow> bool" where
  "calm evs = (\<forall>opts r. Resize opts r \<notin> set evs)"

text \<open>
  \<open>performs env p us f\<close>: from any state whose program is \<open>p\<close>, the step \<open>f\<close> only appends
  to the log and leaves the program alone; the resize calls it makes are an initial
  stretch of \<open>us\<close>, all of \<open>us\<close> when it is fulfilled; when it is rejected, either there was
  no configuration path (a TypeError before any call) or the last thing it did was the
  resize that failed, with that error; and it is fulfilled when every request of \<open>us\<close>
  succeeds whenever it is made.
\<close>

definition performs ::
  "env \<Rightarrow> program \<Rightarrow> resize_opts list \<Rightarrow> (state \<Rightarrow> (error + unit) \<times> state) \<Rightarrow> bool"
where
  "performs env p us f =
     (\<forall>st. prog st = p \<longrightarrow>
        (\<exists>evs r. f st = (r, st\<lparr>log := log st @ evs\<rparr>)
           \<and> prefix (resize_calls evs) us
           \<and> (r = Inr () \<longrightarrow> resize_calls evs = us \<and> clean evs)
           \<and> (\<forall>e. r = Inl e \<longrightarrow>
                  (config p = None \<and> e = TypeError \<and> clean evs)
                  \<or> (\<exists>pre opts. evs = pre @ [Resize opts (Some e)] \<and> clean pre))
           \<and> (config p \<noteq> None \<and> (\<forall>h. \<forall>opts\<in>set us. ig_resize env h opts = None)
                \<longrightarrow> r = Inr ())))"

text \<open>Every resize request in a stretch of the log asks for quality 1 and format png.\<close>

definition requests_png :: "event list \<Rightarrow> bool" where
  "requests_png evs =
     (\<forall>opts res. Resize opts res \<in> set evs \<longrightarrow> quality opts = 1 \<and> format opts = ''png'')"

text \<open>
  A stretch of the log in which no resize failed, or whose last entry is the one
  failed resize, the error being what the step was rejected with.
\<close>

definition stops_at_failure :: "error + unit \<Rightarrow> event list \<Rightarrow> bool" where
  "stops_at_failure r evs =
     (clean evs \<or> (\<exists>pre opts e. evs = pre @ [Resize opts (Some e)] \<and> clean pre \<and> r = Inl e))"

text \<open>The parsed document has a \<open>widget.name\<close> field.\<close>

definition has_widget_name :: "jsval \<Rightarrow> bool" where
  "has_widget_name doc =
     (case js_prop doc ''widget'' of
        Inl e \<Rightarrow> False
      | Inr widget \<Rightarrow>
          (case js_prop widget ''name'' of
             Inl e \<Rightarrow> False
           | Inr nm \<Rightarrow> nm \<noteq> Undefined))"

section \<open>A sample project\<close>

text \<open>
  A project in \<open>/p\<close> with android and ios in platforms.json; ios has three icons and two
  splashes. Every read is answered at once. The \<open>path\<close> functions are stand-ins: \<open>dirname\<close> answers \<open>/p\<close>, \<open>join\<close> puts a
  slash between its arguments, \<open>resolve\<close> answers its second argument (absolute here).
\<close>

definition ex_icons :: "asset list" where
  "ex_icons =
     [\<lparr>asset_name = ''a.png'', asset_size = Some 29, asset_width = None, asset_height = None\<rparr>,
      \<lparr>asset_name = ''b.png'', asset_size = Some 58, asset_width = None, asset_height = None\<rparr>,
      \<lparr>asset_name = ''c.png'', asset_size = Some 87, asset_width = None, asset_height = None\<rparr>]"

definition ex_splashes :: "asset list" where
  "ex_splashes =
     [\<lparr>asset_name = ''s.png'', asset_size = None, asset_width = Some 320, asset_height = Some 480\<rparr>,
      \<lparr>asset_name = ''t.png'', asset_size = None, asset_width = Some 640, asset_height = Some 960\<rparr>]"

definition ex_ios :: platform where
  "ex_ios = \<lparr>name = ''ios'', iconPath = Some ''$PROJECT_NAME/icons'',
             splashPath = Some ''$PROJECT_NAME/splash'',
             iconAssets = Some ex_icons, splashAssets = Some ex_splashes\<rparr>"

definition ex_android :: platform where
  "ex_android = \<lparr>name = ''android'', iconPath = Some ''res'', splashPath = Some ''res'',
                 iconAssets = Some [], splashAssets = None\<rparr>"

definition ex_ios_resolved :: resolved where
  "ex_ios_resolved = \<lparr>descriptor = ex_ios, isAdded = True,
                      own_iconPath = ''/p/platforms/ios/App/icons'',
                      own_splashPath = ''/p/platforms/ios/App/splash''\<rparr>"

definition ex_doc :: jsval where
  "ex_doc = Obj [(''widget'', Obj [(''name'', Arr [Str ''App''])])]"

definition ex_env :: env where
  "ex_env = \<lparr>platformInfo = [ex_android, ex_ios],
             fs_stat = (\<lambda>h p. Inr True),
             fs_readFile = (\<lambda>h p. Inr ''data''),
             parser_parseString = (\<lambda>d. Inr ex_doc),
             ig_resize = (\<lambda>h opts. None),
             path_dirname = (\<lambda>p. ''/p''),
             path_join = (\<lambda>a b. a @ ''/'' @ b),
             path_resolve = (\<lambda>a b. b),
             read_answered = (\<lambda>h t. True)\<rparr>"

definition ex_state :: state where
  "ex_state = \<lparr>prog = \<lparr>icon = Some ''/p/icon.png'', splash = Some ''/p/splash.png'',
                        config = Some ''/p/config.xml''\<rparr>,
               log = []\<rparr>"

text \<open>The same project where the second resize call of the run fails.\<close>

definition env_second_resize_fails :: env where
  "env_second_resize_fails =
     ex_env\<lparr>ig_resize := (\<lambda>h opts. if length (resize_calls h) = 1
                                    then Some (ResizeError ''convert'') else None)\<rparr>"

text \<open>... where platforms/android does not exist (ios does).\<close>

definition env_android_missing :: env where
  "env_android_missing =
     ex_env\<lparr>fs_stat := (\<lambda>h p. if p = ''/p/platforms/android''
                               then Inl (FsError ''ENOENT'') else Inr True)\<rparr>"

text \<open>... where config.xml does not exist.\<close>

definition env_config_missing :: env where
  "env_config_missing =
     ex_env\<lparr>fs_readFile := (\<lambda>h p. if p = ''/p/config.xml''
                                   then Inl (FsError ''ENOENT'') else Inr ''data'')\<rparr>"

text \<open>... where neither icon.png nor splash.png exists.\<close>

definition env_no_sources :: env where
  "env_no_sources =
     ex_env\<lparr>fs_readFile := (\<lambda>h p. if p = ''/p/config.xml''
                                   then Inr ''data'' else Inl (FsError ''ENOENT''))\<rparr>"

text \<open>... where splash.png does not exist.\<close>

definition env_no_splash :: env where
  "env_no_splash =
     ex_env\<lparr>fs_readFile := (\<lambda>h p. if p = ''/p/splash.png''
                                   then Inl (FsError ''ENOENT'') else Inr ''data'')\<rparr>"

text \<open>... where both platform roots exist but are plain files.\<close>

definition env_no_platform :: env where
  "env_no_platform = ex_env\<lparr>fs_stat := (\<lambda>h p. Inr False)\<rparr>"

text \<open>... where neither platform root exists.\<close>

definition env_roots_absent :: env where
  "env_roots_absent = ex_env\<lparr>fs_stat := (\<lambda>h p. Inl (FsError ''ENOENT''))\<rparr>"

text \<open>
  ... where splash.png does not exist, the file system takes its time to say so (the
  answer comes after the chain has ended), and ImageMagick cannot open what does not
  exist.
\<close>

definition env_no_splash_late :: env where
  "env_no_splash_late =
     ex_env\<lparr>fs_readFile := (\<lambda>h p. if p = ''/p/splash.png''
                                   then Inl (FsError ''ENOENT'') else Inr ''data''),
            ig_resize := (\<lambda>h opts. if srcPath opts = Some ''/p/splash.png''
                                    then Some (ResizeError ''unable to open image'') else None),
            read_answered := (\<lambda>h t. False)\<rparr>"

text \<open>The program object with an empty icon path, and without a configuration path.\<close>

definition ex_state_empty_icon :: state where
  "ex_state_empty_icon = ex_state\<lparr>prog := (prog ex_state)\<lparr>icon := Some []\<rparr>\<rparr>"

definition ex_state_no_config :: state where
  "ex_state_no_config = ex_state\<lparr>prog := (prog ex_state)\<lparr>config := None\<rparr>\<rparr>"

text \<open>... where config.xml is \<open><widget/>\<close>, with no name element.\<close>

definition env_no_name :: env where
  "env_no_name = ex_env\<lparr>parser_parseString := (\<lambda>d. Inr (Obj [(''widget'', Obj [])]))\<rparr>"

section \<open>Steps that append to the log\<close>

lemma resize_calls_append: "resize_calls (xs @ ys) = resize_calls xs @ resize_calls ys"
  by (induction xs rule: resize_calls.induct) simp_all

lemma clean_Nil: "clean []"
  by (simp add: clean_def)

lemma clean_append: "clean (xs @ ys) \<longleftrightarrow> clean xs \<and> clean ys"
  by (auto simp: clean_def)

lemma state_log_id: "st\<lparr>log := log st @ []\<rparr> = (st::state)"
  by simp

lemma performs_skip: "performs env p [] (\<lambda>st. (Inr (), st))"
  unfolding performs_def
  by (intro allI impI, rule exI[of _ "[]"]) (simp add: clean_Nil)

lemma performs_seq:
  assumes f: "performs env p us f" and g: "performs env p vs g"
  shows "performs env p (us @ vs)
           (\<lambda>st. case f st of (Inl e, st1) \<Rightarrow> (Inl e, st1) | (Inr u, st1) \<Rightarrow> g st1)"
  unfolding performs_def
proof (intro allI impI)
  fix st :: state
  assume p: "prog st = p"
  from f p obtain evs r where
    fst: "f st = (r, st\<lparr>log := log st @ evs\<rparr>)" and
    pre1: "prefix (resize_calls evs) us" and
    ok1: "r = Inr () \<longrightarrow> resize_calls evs = us \<and> clean evs" and
    bad1: "\<forall>e. r = Inl e \<longrightarrow> (config p = None \<and> e = TypeError \<and> clean evs)
              \<or> (\<exists>pre opts. evs = pre @ [Resize opts (Some e)] \<and> clean pre)" and
    all1: "config p \<noteq> None \<and> (\<forall>h. \<forall>opts\<in>set us. ig_resize env h opts = None) \<longrightarrow> r = Inr ()"
    unfolding performs_def by blast
  let ?h = "\<lambda>st. case f st of (Inl e, st1) \<Rightarrow> (Inl e, st1) | (Inr u, st1) \<Rightarrow> g st1"
  show "\<exists>evs r. ?h st = (r, st\<lparr>log := log st @ evs\<rparr>)
           \<and> prefix (resize_calls evs) (us @ vs)
           \<and> (r = Inr () \<longrightarrow> resize_calls evs = us @ vs \<and> clean evs)
           \<and> (\<forall>e. r = Inl e \<longrightarrow>
                  (config p = None \<and> e = TypeError \<and> clean evs)
                  \<or> (\<exists>pre opts. evs = pre @ [Resize opts (Some e)] \<and> clean pre))
           \<and> (config p \<noteq> None \<and> (\<forall>h. \<forall>opts\<in>set (us @ vs). ig_resize env h opts = None)
                \<longrightarrow> r = Inr ())"
  proof (cases r)
    case (Inl e)
    have "?h st = (Inl e, st\<lparr>log := log st @ evs\<rparr>)"
      using fst Inl by simp
    moreover have "prefix (resize_calls evs) (us @ vs)"
      using pre1 by (simp add: prefix_prefix)
    moreover have "\<not> (config p \<noteq> None \<and> (\<forall>h. \<forall>opts\<in>set (us @ vs). ig_resize env h opts = None))"
      using all1 Inl by auto
    ultimately show ?thesis
      using bad1 Inl by (intro exI[of _ evs] exI[of _ "Inl e"]) simp
  next
    case (Inr u)
    let ?st1 = "st\<lparr>log := log st @ evs\<rparr>"
    have p1: "prog ?st1 = p" using p by simp
    from g p1 obtain evs2 r2 where
      snd: "g ?st1 = (r2, ?st1\<lparr>log := log ?st1 @ evs2\<rparr>)" and
      pre2: "prefix (resize_calls evs2) vs" and
      ok2: "r2 = Inr () \<longrightarrow> resize_calls evs2 = vs \<and> clean evs2" and
      bad2: "\<forall>e. r2 = Inl e \<longrightarrow> (config p = None \<and> e = TypeError \<and> clean evs2)
                \<or> (\<exists>pre opts. evs2 = pre @ [Resize opts (Some e)] \<and> clean pre)" and
      all2: "config p \<noteq> None \<and> (\<forall>h. \<forall>opts\<in>set vs. ig_resize env h opts = None) \<longrightarrow> r2 = Inr ()"
      unfolding performs_def by blast
    from ok1 Inr have c1: "resize_calls evs = us" and cl1: "clean evs" by simp_all
    have run: "?h st = (r2, st\<lparr>log := log st @ (evs @ evs2)\<rparr>)"
      using fst Inr snd by simp
    have pre: "prefix (resize_calls (evs @ evs2)) (us @ vs)"
      using c1 pre2 by (simp add: resize_calls_append)
    have ok: "r2 = Inr () \<longrightarrow> resize_calls (evs @ evs2) = us @ vs \<and> clean (evs @ evs2)"
      using c1 cl1 ok2 by (simp add: resize_calls_append clean_append)
    have bad: "\<forall>e. r2 = Inl e \<longrightarrow> (config p = None \<and> e = TypeError \<and> clean (evs @ evs2))
                \<or> (\<exists>pre opts. evs @ evs2 = pre @ [Resize opts (Some e)] \<and> clean pre)"
    proof (intro allI impI)
      fix e assume "r2 = Inl e"
      with bad2 consider "config p = None \<and> e = TypeError \<and> clean evs2"
        | pre opts where "evs2 = pre @ [Resize opts (Some e)]" "clean pre" by blast
      then show "(config p = None \<and> e = TypeError \<and> clean (evs @ evs2))
                \<or> (\<exists>pre opts. evs @ evs2 = pre @ [Resize opts (Some e)] \<and> clean pre)"
      proof cases
        case 1
        then show ?thesis using cl1 by (simp add: clean_append)
      next
        case 2
        then have "evs @ evs2 = (evs @ pre) @ [Resize opts (Some e)]" "clean (evs @ pre)"
          using cl1 by (simp_all add: clean_append)
        then show ?thesis by blast
      qed
    qed
    have all: "config p \<noteq> None \<and> (\<forall>h. \<forall>opts\<in>set (us @ vs). ig_resize env h opts = None)
                \<longrightarrow> r2 = Inr ()"
      using all2 by auto
    show ?thesis
      using run pre ok bad all by blast
  qed
qed


lemma resize_calls_other: "\<forall>opts r. ev \<noteq> Resize opts r \<Longrightarrow> resize_calls (ev # evs) = resize_calls evs"
  by (cases ev) simp_all

lemma clean_other: "\<forall>opts r. ev \<noteq> Resize opts r \<Longrightarrow> clean (ev # evs) = clean evs"
  by (auto simp: clean_def)

lemma performs_cong:
  assumes "performs env p us f" and "\<And>st. prog st = p \<Longrightarrow> g st = f st"
  shows "performs env p us g"
  using assms unfolding performs_def by simp

lemma performs_emit:
  assumes f: "performs env p us f" and ev: "\<forall>opts r. ev \<noteq> Resize opts r"
  shows "performs env p us (\<lambda>st. f (emit ev st))"
  unfolding performs_def
proof (intro allI impI)
  fix st :: state
  assume p: "prog st = p"
  then have "prog (emit ev st) = p" by (simp add: emit_def)
  with f obtain evs r where
    run: "f (emit ev st) = (r, (emit ev st)\<lparr>log := log (emit ev st) @ evs\<rparr>)" and
    pre: "prefix (resize_calls evs) us" and
    ok: "r = Inr () \<longrightarrow> resize_calls evs = us \<and> clean evs" and
    bad: "\<forall>e. r = Inl e \<longrightarrow> (config p = None \<and> e = TypeError \<and> clean evs)
              \<or> (\<exists>pre opts. evs = pre @ [Resize opts (Some e)] \<and> clean pre)" and
    all: "config p \<noteq> None \<and> (\<forall>h. \<forall>opts\<in>set us. ig_resize env h opts = None) \<longrightarrow> r = Inr ()"
    unfolding performs_def by blast
  have run': "f (emit ev st) = (r, st\<lparr>log := log st @ (ev # evs)\<rparr>)"
    using run by (simp add: emit_def)
  have bad': "\<forall>e. r = Inl e \<longrightarrow> (config p = None \<and> e = TypeError \<and> clean (ev # evs))
              \<or> (\<exists>pre opts. ev # evs = pre @ [Resize opts (Some e)] \<and> clean pre)"
  proof (intro allI impI)
    fix e assume "r = Inl e"
    with bad consider "config p = None \<and> e = TypeError \<and> clean evs"
      | pre opts where "evs = pre @ [Resize opts (Some e)]" "clean pre" by blast
    then show "(config p = None \<and> e = TypeError \<and> clean (ev # evs))
              \<or> (\<exists>pre opts. ev # evs = pre @ [Resize opts (Some e)] \<and> clean pre)"
    proof cases
      case 1
      then show ?thesis using ev by (simp add: clean_other)
    next
      case 2
      then have "ev # evs = (ev # pre) @ [Resize opts (Some e)]" "clean (ev # pre)"
        using ev by (simp_all add: clean_other)
      then show ?thesis by blast
    qed
  qed
  show "\<exists>evs r. f (emit ev st) = (r, st\<lparr>log := log st @ evs\<rparr>)
           \<and> prefix (resize_calls evs) us
           \<and> (r = Inr () \<longrightarrow> resize_calls evs = us \<and> clean evs)
           \<and> (\<forall>e. r = Inl e \<longrightarrow>
                  (config p = None \<and> e = TypeError \<and> clean evs)
                  \<or> (\<exists>pre opts. evs = pre @ [Resize opts (Some e)] \<and> clean pre))
           \<and> (config p \<noteq> None \<and> (\<forall>h. \<forall>opts\<in>set us. ig_resize env h opts = None)
                \<longrightarrow> r = Inr ())"
    using run' pre ok bad' all ev
    by (intro exI[of _ "ev # evs"] exI[of _ r]) (simp add: resize_calls_other clean_other)
qed

lemma generateArtAsset_noconfig:
  "config (prog st) = None \<Longrightarrow> generateArtAsset env nm src dst dims st = (Inl TypeError, st)"
  by (simp add: generateArtAsset_def)

lemma generateArtAsset_done:
  "config (prog st) = Some c \<Longrightarrow> ig_resize env (log st) (resize_request env c src dst nm dims) = None
   \<Longrightarrow> generateArtAsset env nm src dst dims st
       = (Inr (), st\<lparr>log := log st @ [Resize (resize_request env c src dst nm dims) None,
                                      Success (nm @ '' created'')]\<rparr>)"
  by (simp add: generateArtAsset_def resize_request_def Let_def emit_def)

lemma generateArtAsset_failed:
  "config (prog st) = Some c \<Longrightarrow> ig_resize env (log st) (resize_request env c src dst nm dims) = Some e
   \<Longrightarrow> generateArtAsset env nm src dst dims st
       = (Inl e, st\<lparr>log := log st @ [Resize (resize_request env c src dst nm dims) (Some e)]\<rparr>)"
  by (simp add: generateArtAsset_def resize_request_def Let_def emit_def)

lemma performs_generateArtAsset:
  "performs env p (asset_units env p type platform [a])
     (generateArtAsset env (asset_name a) (source p type) (path_of type platform) (dimensions type a))"
proof (cases "config p")
  case None
  show ?thesis
    unfolding performs_def
    by (intro allI impI, rule exI[of _ "[]"])
       (simp add: None generateArtAsset_noconfig asset_units_def clean_Nil)
next
  case (Some c)
  let ?o = "resize_request env c (source p type) (path_of type platform) (asset_name a) (dimensions type a)"
  have us: "asset_units env p type platform [a] = [?o]"
    by (simp add: Some asset_units_def)
  show ?thesis
    unfolding performs_def us
  proof (intro allI impI)
    fix st :: state
    assume p: "prog st = p"
    then have c: "config (prog st) = Some c" by (simp add: Some)
    show "\<exists>evs r. generateArtAsset env (asset_name a) (source p type) (path_of type platform)
                    (dimensions type a) st = (r, st\<lparr>log := log st @ evs\<rparr>)
           \<and> prefix (resize_calls evs) [?o]
           \<and> (r = Inr () \<longrightarrow> resize_calls evs = [?o] \<and> clean evs)
           \<and> (\<forall>e. r = Inl e \<longrightarrow>
                  (config p = None \<and> e = TypeError \<and> clean evs)
                  \<or> (\<exists>pre opts. evs = pre @ [Resize opts (Some e)] \<and> clean pre))
           \<and> (config p \<noteq> None \<and> (\<forall>h. \<forall>opts\<in>set [?o]. ig_resize env h opts = None)
                \<longrightarrow> r = Inr ())"
    proof (cases "ig_resize env (log st) ?o")
      case None
      show ?thesis
        by (intro exI[of _ "[Resize ?o None, Success (asset_name a @ '' created'')]"]
                  exI[of _ "Inr ()"])
           (simp add: generateArtAsset_done[OF c None] clean_def)
    next
      case (Some e)
      have "\<exists>pre opts. [Resize ?o (Some e)] = pre @ [Resize opts (Some e)] \<and> clean pre"
        by (intro exI[of _ "[]"] exI[of _ ?o]) (simp add: clean_Nil)
      moreover have "\<not> (\<forall>h. \<forall>opts\<in>set [?o]. ig_resize env h opts = None)"
        using Some by auto
      ultimately show ?thesis
        by (intro exI[of _ "[Resize ?o (Some e)]"] exI[of _ "Inl e"])
           (simp add: generateArtAsset_failed[OF c Some])
    qed
  qed
qed

lemma asset_units_Cons:
  "asset_units env p type platform (a # rest)
     = asset_units env p type platform [a] @ asset_units env p type platform rest"
  by (simp add: asset_units_def split: option.splits)

lemma performs_reduce_assets:
  "performs env p (asset_units env p type platform assets)
     (reduce_assets (\<lambda>a src dst. generateArtAsset env (asset_name a) src dst (dimensions type a))
        type platform assets)"
proof (induction assets)
  case Nil
  have "asset_units env p type platform [] = []"
    by (simp add: asset_units_def split: option.splits)
  moreover have "reduce_assets (\<lambda>a src dst. generateArtAsset env (asset_name a) src dst (dimensions type a))
                   type platform [] = (\<lambda>st. (Inr (), st))"
    by (rule ext) simp
  ultimately show ?case
    using performs_skip[of env p] by simp
next
  case (Cons a rest)
  have "performs env p (asset_units env p type platform [a] @ asset_units env p type platform rest)
          (\<lambda>st. case generateArtAsset env (asset_name a) (source p type) (path_of type platform)
                        (dimensions type a) st of
                   (Inl e, st1) \<Rightarrow> (Inl e, st1)
                 | (Inr u, st1) \<Rightarrow>
                     reduce_assets (\<lambda>a src dst. generateArtAsset env (asset_name a) src dst (dimensions type a))
                       type platform rest st1)"
    by (rule performs_seq[OF performs_generateArtAsset Cons.IH])
  then show ?case
    unfolding asset_units_Cons[of env p type platform a rest]
    by (rule performs_cong) simp
qed

lemma performs_processPlatformFor:
  "performs env p (phase_units env p type platform)
     (processPlatformFor type platform
        (\<lambda>pl. generateArtAssets pl type
                 (\<lambda>a src dst. generateArtAsset env (asset_name a) src dst (dimensions type a))))"
proof (cases "truthy (source p type)
               \<and> (case assets_of type platform of None \<Rightarrow> [] | Some xs \<Rightarrow> xs) \<noteq> []")
  case False
  then have "phase_units env p type platform = []"
    by (auto simp: phase_units_def asset_units_def split: option.splits)
  moreover have "\<And>st. prog st = p \<Longrightarrow>
      processPlatformFor type platform
        (\<lambda>pl. generateArtAssets pl type
                 (\<lambda>a src dst. generateArtAsset env (asset_name a) src dst (dimensions type a))) st
       = (Inr (), st)"
    using False by (auto simp: processPlatformFor_def)
  ultimately show ?thesis
    using performs_cong[OF performs_skip[of env p]] by simp
next
  case True
  then obtain assets where a: "assets_of type platform = Some assets" and ne: "assets \<noteq> []"
    by (cases "assets_of type platform") auto
  have u: "phase_units env p type platform = asset_units env p type platform assets"
    using True a by (simp add: phase_units_def)
  let ?hd = "Header (''Generating '' @ type_name type @ '' assets for '' @ name (descriptor platform))"
  have "performs env p (asset_units env p type platform assets)
          (\<lambda>st. reduce_assets (\<lambda>a src dst. generateArtAsset env (asset_name a) src dst (dimensions type a))
                   type platform assets (emit ?hd st))"
    by (rule performs_emit[OF performs_reduce_assets]) simp
  then show ?thesis
    unfolding u
    by (rule performs_cong) (use True a in \<open>simp add: processPlatformFor_def generateArtAssets_def\<close>)
qed

lemma performs_reduce_platforms:
  "performs env p
     (concat (map (\<lambda>platform. phase_units env p Icon platform @ phase_units env p Splash platform) ps))
     (reduce_platforms env ps)"
proof (induction ps)
  case Nil
  have "reduce_platforms env [] = (\<lambda>st. (Inr (), st))"
    by (rule ext) simp
  then show ?case using performs_skip[of env p] by simp
next
  case (Cons pl rest)
  have icon: "performs env p (phase_units env p Icon pl)
                (processPlatformFor Icon pl (generateIcons env))"
    using performs_processPlatformFor[of env p Icon pl]
    by (simp add: generateIcon_def[abs_def] generateIcons_def[abs_def])
  have splash: "performs env p (phase_units env p Splash pl)
                (processPlatformFor Splash pl (generateSplashes env))"
    using performs_processPlatformFor[of env p Splash pl]
    by (simp add: generateSplash_def[abs_def] generateSplashes_def[abs_def])
  have "performs env p
          (phase_units env p Icon pl @ (phase_units env p Splash pl @
             concat (map (\<lambda>platform. phase_units env p Icon platform @ phase_units env p Splash platform) rest)))
          (\<lambda>st. case processPlatformFor Icon pl (generateIcons env) st of
                   (Inl e, st1) \<Rightarrow> (Inl e, st1)
                 | (Inr u, st1) \<Rightarrow>
                     (case processPlatformFor Splash pl (generateSplashes env) st1 of
                        (Inl e, st2) \<Rightarrow> (Inl e, st2)
                      | (Inr u, st2) \<Rightarrow> reduce_platforms env rest st2))"
    by (rule performs_seq[OF icon performs_seq[OF splash Cons.IH]])
  then have "performs env p
          (concat (map (\<lambda>platform. phase_units env p Icon platform @ phase_units env p Splash platform)
                       (pl # rest)))
          (\<lambda>st. case processPlatformFor Icon pl (generateIcons env) st of
                   (Inl e, st1) \<Rightarrow> (Inl e, st1)
                 | (Inr u, st1) \<Rightarrow>
                     (case processPlatformFor Splash pl (generateSplashes env) st1 of
                        (Inl e, st2) \<Rightarrow> (Inl e, st2)
                      | (Inr u, st2) \<Rightarrow> reduce_platforms env rest st2))"
    by simp
  then show ?case
    by (rule performs_cong) simp
qed

lemma performs_generate: "performs env p (work_units env p platforms) (generate env platforms)"
  unfolding work_units_def generate_def[abs_def]
  by (rule performs_reduce_platforms)

section \<open>The stages before generation make no resize call\<close>

lemma calm_Nil: "calm []"
  by (simp add: calm_def)

lemma calm_append: "calm (xs @ ys) \<longleftrightarrow> calm xs \<and> calm ys"
  by (auto simp: calm_def)

lemma calm_clean: "calm evs \<Longrightarrow> clean evs"
  by (simp add: calm_def clean_def)

lemma calm_resize_calls: "calm evs \<Longrightarrow> resize_calls evs = []"
  by (induction evs rule: resize_calls.induct) (auto simp: calm_def)

lemma resize_calls_mem: "Resize opts r \<in> set evs \<Longrightarrow> opts \<in> set (resize_calls evs)"
  by (induction evs rule: resize_calls.induct) auto

lemma new_events_append: "log st' = log st @ evs \<Longrightarrow> new_events st st' = evs"
  by (simp add: new_events_def)

lemma statAll_log:
  "statAll env paths st = (rs, st') \<Longrightarrow>
     \<exists>evs. st' = st\<lparr>log := log st @ evs\<rparr> \<and> (\<forall>ev\<in>set evs. \<exists>path res. ev = Stat path res)"
proof (induction paths arbitrary: st rs st')
  case Nil
  then show ?case by (intro exI[of _ "[]"]) simp
next
  case (Cons x paths)
  obtain platform platformPath ip sp where x: "x = (platform, platformPath, ip, sp)"
    by (cases x)
  let ?ev = "Stat platformPath (fs_stat env (log st) platformPath)"
  obtain r1 st1 where rest: "statAll env paths (emit ?ev st) = (r1, st1)"
    by (cases "statAll env paths (emit ?ev st)")
  from Cons.IH[OF rest] obtain evs where
    st1: "st1 = (emit ?ev st)\<lparr>log := log (emit ?ev st) @ evs\<rparr>" and
    only: "\<forall>ev\<in>set evs. \<exists>path res. ev = Stat path res" by blast
  have "st' = st1"
    using Cons.prems x rest by (simp add: Let_def)
  then have "st' = st\<lparr>log := log st @ (?ev # evs)\<rparr>"
    using st1 by (simp add: emit_def)
  moreover have "\<forall>ev\<in>set (?ev # evs). \<exists>path res. ev = Stat path res"
    using only by simp
  ultimately show ?case by blast
qed

lemma getPlatforms_log:
  assumes g: "getPlatforms env pn st = (r, st')"
  shows "\<exists>evs. st' = st\<lparr>log := log st @ evs\<rparr> \<and> (\<forall>ev\<in>set evs. \<exists>path res. ev = Stat path res)"
proof -
  have still: ?thesis if "st' = st"
    using that by (intro exI[of _ "[]"]) simp
  show ?thesis
  proof (cases "config (prog st)")
    case None
    with g have "st' = st" by (simp add: getPlatforms_def)
    then show ?thesis by (rule still)
  next
    case (Some c)
    show ?thesis
    proof (cases "platformPaths env (path_dirname env c) (js_toString (or_empty pn)) (platformInfo env)")
      case (Inl e)
      with g Some have "st' = st" by (simp add: getPlatforms_def)
      then show ?thesis by (rule still)
    next
      case (Inr paths)
      obtain rs st1 where s: "statAll env paths st = (rs, st1)"
        by (cases "statAll env paths st")
      with g Some Inr have "st' = st1" by (simp add: getPlatforms_def)
      with statAll_log[OF s] show ?thesis by simp
    qed
  qed
qed

lemma only_stat_calm: "\<forall>ev\<in>set evs. \<exists>path res. ev = Stat path res \<Longrightarrow> calm evs"
  by (auto simp: calm_def)

lemma atLeastOnePlatformFound_log:
  assumes "atLeastOnePlatformFound env st = (r, st')"
  shows "\<exists>evs. st' = st\<lparr>log := log st @ evs\<rparr> \<and> calm evs"
proof -
  obtain r1 st1 where g: "getPlatforms env Undefined st = (r1, st1)"
    by (cases "getPlatforms env Undefined st")
  from getPlatforms_log[OF g] obtain evs where
    st1: "st1 = st\<lparr>log := log st @ evs\<rparr>" and calm: "calm evs"
    using only_stat_calm by blast
  let ?msg = "Success (''platforms found: ''
                @ js_join '', '' (map (\<lambda>p. name (descriptor p)) (filter isAdded (projr (projr r1)))))"
  have "st' = st1 \<or> st' = emit ?msg st1"
    using assms g
    by (auto simp: atLeastOnePlatformFound_def Let_def split: sum.splits if_splits)
  then show ?thesis
  proof
    assume "st' = st1"
    with st1 calm show ?thesis by blast
  next
    assume "st' = emit ?msg st1"
    then have "st' = st\<lparr>log := log st @ (evs @ [?msg])\<rparr>"
      using st1 by (simp add: emit_def)
    moreover have "calm (evs @ [?msg])"
      using calm by (simp add: calm_append) (simp add: calm_def)
    ultimately show ?thesis by blast
  qed
qed

lemma validParamFile_log:
  assumes "validParamFile env type w sm em wm st = (r, st')"
  shows "\<exists>evs. log st' = log st @ evs \<and> calm evs
           \<and> (prog st' = prog st \<or> (w \<and> prog st' = set_null type (prog st)))"
proof -
  let ?loc = "param_value (prog st) type"
  let ?r = "case ?loc of None \<Rightarrow> Inl TypeError | Some l \<Rightarrow> fs_readFile env (log st) l"
  let ?rd = "ReadFile ?loc (case ?r of Inl e \<Rightarrow> Some e | Inr d \<Rightarrow> None)"
  let ?ok = "Success (or_default sm (param_name type @ '' asset exists at: '' @ js_str ?loc))"
  let ?warn = "Warn (or_default wm (param_name type @ '' asset was not specified''))"
  have "(log st' = log st @ [?rd, ?ok] \<and> prog st' = prog st)
        \<or> (log st' = log st @ [?rd, ?warn] \<and> w \<and> prog st' = set_null type (prog st))
        \<or> (log st' = log st @ [?rd] \<and> prog st' = prog st)"
    using assms
    by (auto simp: validParamFile_def Let_def emit_def split: sum.splits if_splits)
  moreover have "calm [?rd, ?ok]" "calm [?rd, ?warn]" "calm [?rd]"
    by (simp_all add: calm_def)
  ultimately show ?thesis by metis
qed

lemma configFileExists_log:
  assumes "configFileExists env st = (r, st')"
  shows "\<exists>evs. log st' = log st @ evs \<and> calm evs \<and> prog st' = prog st"
  using validParamFile_log[OF assms[unfolded configFileExists_def]] by auto

lemma config_set_null_Art: "config (set_null (Art t) p) = config p"
  by (cases t) simp_all

lemma answer_log:
  "\<exists>evs. log (answer env t st) = log st @ evs \<and> calm evs
         \<and> config (prog (answer env t st)) = config (prog st)"
proof -
  obtain r st' where v: "validParamFile env (Art t) True None None None st = (r, st')"
    by (cases "validParamFile env (Art t) True None None None st")
  from validParamFile_log[OF v] obtain evs where
    "log st' = log st @ evs" "calm evs" "config (prog st') = config (prog st)"
    by (auto simp: config_set_null_Art)
  with v show ?thesis by (simp add: answer_def)
qed

lemma settle_log:
  "settle env ts st = (ts', st') \<Longrightarrow>
     \<exists>evs. log st' = log st @ evs \<and> calm evs \<and> config (prog st') = config (prog st)"
proof (induction ts arbitrary: st ts' st')
  case Nil
  then show ?case by (intro exI[of _ "[]"]) (simp add: calm_Nil)
next
  case (Cons t ts)
  show ?case
  proof (cases "read_answered env (log st) t")
    case True
    with Cons.prems have "settle env ts (answer env t st) = (ts', st')" by simp
    from Cons.IH[OF this] obtain e2 where
      l2: "log st' = log (answer env t st) @ e2" and c2: "calm e2" and
      p2: "config (prog st') = config (prog (answer env t st))" by blast
    from answer_log[of env t st] obtain e1 where
      l1: "log (answer env t st) = log st @ e1" and c1: "calm e1" and
      p1: "config (prog (answer env t st)) = config (prog st)" by blast
    have "log st' = log st @ (e1 @ e2)" "calm (e1 @ e2)" "config (prog st') = config (prog st)"
      using l1 l2 c1 c2 p1 p2 by (simp_all add: calm_append)
    then show ?thesis by blast
  next
    case False
    obtain ts1 st1 where r: "settle env ts st = (ts1, st1)"
      by (cases "settle env ts st")
    with Cons.prems False have "st' = st1" by simp
    with Cons.IH[OF r] show ?thesis by simp
  qed
qed

lemma getProjectName_log:
  assumes "getProjectName env st = (r, st')"
  shows "\<exists>evs. st' = st\<lparr>log := log st @ evs\<rparr> \<and> calm evs"
proof -
  let ?r = "case config (prog st) of None \<Rightarrow> Inl TypeError | Some c \<Rightarrow> fs_readFile env (log st) c"
  let ?rd = "ReadFile (config (prog st)) (case ?r of Inl e \<Rightarrow> Some e | Inr d \<Rightarrow> None)"
  have "st' = st\<lparr>log := log st @ [?rd]\<rparr>"
    using assms by (auto simp: getProjectName_def Let_def emit_def split: sum.splits)
  moreover have "calm [?rd]" by (simp add: calm_def)
  ultimately show ?thesis by blast
qed

section \<open>The log of a whole run\<close>

lemma clean_Cons: "clean (ev # evs) \<longleftrightarrow> (\<forall>opts e. ev \<noteq> Resize opts (Some e)) \<and> clean evs"
  by (auto simp: clean_def)

lemma calm_Cons: "calm (ev # evs) \<longleftrightarrow> (\<forall>opts r. ev \<noteq> Resize opts r) \<and> calm evs"
  by (auto simp: calm_def)

lemma requests_png_Nil: "requests_png []"
  by (simp add: requests_png_def)

lemma requests_png_Cons:
  "requests_png (ev # evs) \<longleftrightarrow>
     (\<forall>opts res. ev = Resize opts res \<longrightarrow> quality opts = 1 \<and> format opts = ''png'') \<and> requests_png evs"
  by (auto simp: requests_png_def)

lemma calm_requests_png: "calm evs \<Longrightarrow> requests_png evs"
  by (simp add: calm_def requests_png_def)

lemma requests_png_append: "requests_png (xs @ ys) \<longleftrightarrow> requests_png xs \<and> requests_png ys"
  by (auto simp: requests_png_def)

lemma calm_stops: "calm evs \<Longrightarrow> stops_at_failure r evs"
  by (simp add: stops_at_failure_def calm_clean)

lemma stops_prepend:
  assumes "calm xs" and "stops_at_failure r ys"
  shows "stops_at_failure r (xs @ ys)"
proof -
  from assms(2) consider "clean ys"
    | pre opts e where "ys = pre @ [Resize opts (Some e)]" "clean pre" "r = Inl e"
    unfolding stops_at_failure_def by blast
  then show ?thesis
  proof cases
    case 1
    then show ?thesis
      using assms(1) by (simp add: stops_at_failure_def clean_append calm_clean)
  next
    case 2
    then have "xs @ ys = (xs @ pre) @ [Resize opts (Some e)]" "clean (xs @ pre)"
      using assms(1) by (simp_all add: clean_append calm_clean)
    with 2(3) show ?thesis
      unfolding stops_at_failure_def by blast
  qed
qed

lemma work_units_mem:
  assumes "opts \<in> set (work_units env p ps)"
  shows "\<exists>c platform type a assets.
           config p = Some c \<and> platform \<in> set ps \<and> isAdded platform
           \<and> truthy (source p type) \<and> assets_of type platform = Some assets \<and> a \<in> set assets
           \<and> opts = resize_request env c (source p type) (path_of type platform)
                      (asset_name a) (dimensions type a)"
proof -
  from assms obtain platform type where
    pl: "platform \<in> set ps" "isAdded platform" and
    ph: "opts \<in> set (phase_units env p type platform)"
    unfolding work_units_def by (auto intro: art_type.exhaust)
  from ph have t: "truthy (source p type)"
    by (auto simp: phase_units_def split: if_splits)
  from ph t obtain c where c: "config p = Some c"
    by (cases "config p") (auto simp: phase_units_def asset_units_def)
  from ph t c obtain assets where
    a: "assets_of type platform = Some assets"
    by (cases "assets_of type platform") (auto simp: phase_units_def asset_units_def)
  from ph t c a obtain x where "x \<in> set assets"
    "opts = resize_request env c (source p type) (path_of type platform) (asset_name x) (dimensions type x)"
    by (auto simp: phase_units_def asset_units_def)
  with pl t c a show ?thesis by blast
qed

lemma work_units_png: "opts \<in> set (work_units env p ps) \<Longrightarrow> quality opts = 1 \<and> format opts = ''png''"
  by (drule work_units_mem) (auto simp: resize_request_def)

lemma generate_trace:
  assumes "generate env ps st = (r, st')"
  shows "\<exists>evs. st' = st\<lparr>log := log st @ evs\<rparr>
           \<and> prefix (resize_calls evs) (work_units env (prog st) ps)
           \<and> (r = Inr () \<longrightarrow> resize_calls evs = work_units env (prog st) ps \<and> clean evs)
           \<and> (\<forall>e. r = Inl e \<longrightarrow>
                  (config (prog st) = None \<and> e = TypeError \<and> clean evs)
                  \<or> (\<exists>pre opts. evs = pre @ [Resize opts (Some e)] \<and> clean pre))
           \<and> (config (prog st) \<noteq> None
                \<and> (\<forall>h. \<forall>opts\<in>set (work_units env (prog st) ps). ig_resize env h opts = None)
                \<longrightarrow> r = Inr ())"
proof -
  have "performs env (prog st) (work_units env (prog st) ps) (generate env ps)"
    by (rule performs_generate)
  then obtain evs r0 where
    "generate env ps st = (r0, st\<lparr>log := log st @ evs\<rparr>)"
    "prefix (resize_calls evs) (work_units env (prog st) ps)"
    "r0 = Inr () \<longrightarrow> resize_calls evs = work_units env (prog st) ps \<and> clean evs"
    "\<forall>e. r0 = Inl e \<longrightarrow>
                  (config (prog st) = None \<and> e = TypeError \<and> clean evs)
                  \<or> (\<exists>pre opts. evs = pre @ [Resize opts (Some e)] \<and> clean pre)"
    "config (prog st) \<noteq> None
                \<and> (\<forall>h. \<forall>opts\<in>set (work_units env (prog st) ps). ig_resize env h opts = None)
                \<longrightarrow> r0 = Inr ()"
    unfolding performs_def by blast
  with assms show ?thesis by (intro exI[of _ evs]) simp
qed

lemma generate_requests:
  assumes "generate env ps st = (r, st')"
  shows "\<exists>evs. st' = st\<lparr>log := log st @ evs\<rparr> \<and> requests_png evs \<and> stops_at_failure r evs
           \<and> set (resize_calls evs) \<subseteq> set (work_units env (prog st) ps)"
proof -
  from generate_trace[OF assms] obtain evs where
    st': "st' = st\<lparr>log := log st @ evs\<rparr>" and
    pre: "prefix (resize_calls evs) (work_units env (prog st) ps)" and
    ok: "r = Inr () \<longrightarrow> resize_calls evs = work_units env (prog st) ps \<and> clean evs" and
    bad: "\<forall>e. r = Inl e \<longrightarrow>
                  (config (prog st) = None \<and> e = TypeError \<and> clean evs)
                  \<or> (\<exists>pre opts. evs = pre @ [Resize opts (Some e)] \<and> clean pre)"
    by blast
  have sub: "set (resize_calls evs) \<subseteq> set (work_units env (prog st) ps)"
    using pre by (rule set_mono_prefix)
  have png: "requests_png evs"
    unfolding requests_png_def using sub resize_calls_mem work_units_png by blast
  have stop: "stops_at_failure r evs"
  proof (cases r)
    case (Inl e)
    with bad show ?thesis unfolding stops_at_failure_def by blast
  next
    case (Inr u)
    with ok show ?thesis unfolding stops_at_failure_def by simp
  qed
  from st' png stop sub show ?thesis by blast
qed

lemma stages_trace:
  assumes "stages env st = (r, st')"
  shows "\<exists>evs. log st' = log st @ evs \<and> requests_png evs \<and> stops_at_failure r evs"
proof -
  have quiet: "\<exists>evs. log st' = log st @ evs \<and> requests_png evs \<and> stops_at_failure r evs"
    if "log st' = log st @ evs" "calm evs" for evs
    using that by (auto intro: calm_requests_png calm_stops)
  obtain r1 st1 where s1: "configFileExists env st = (r1, st1)"
    by (cases "configFileExists env st")
  from configFileExists_log[OF s1] obtain e1 where
    l1: "log st1 = log st @ e1" and c1: "calm e1" by blast
  show ?thesis
  proof (cases r1)
    case (Inl e)
    then have "st' = st1" using assms s1 by (simp add: stages_def)
    with l1 c1 show ?thesis by (intro quiet[of e1]) simp_all
  next
    case (Inr b)
    obtain p2 st2 where s2: "settle env [Icon, Splash] st1 = (p2, st2)"
      by (cases "settle env [Icon, Splash] st1")
    from settle_log[OF s2] obtain e2 where
      l2: "log st2 = log st1 @ e2" and c2: "calm e2" by blast
    obtain r3 st3 where s3: "getProjectName env st2 = (r3, st3)"
      by (cases "getProjectName env st2")
    from getProjectName_log[OF s3] obtain e3 where
      l3: "log st3 = log st2 @ e3" and c3: "calm e3" by auto
    have l13: "log st3 = log st @ (e1 @ e2 @ e3)" "calm (e1 @ e2 @ e3)"
      using l1 l2 l3 c1 c2 c3 by (simp_all add: calm_append)
    show ?thesis
    proof (cases r3)
      case (Inl e)
      then have "st' = st3"
        using assms s1 s2 s3 Inr by (simp add: stages_def validArtAssets_def)
      with l13 show ?thesis by (intro quiet[of "e1 @ e2 @ e3"]) simp_all
    next
      case pn: (Inr projectName)
      obtain p3 st3' where s3': "settle env p2 st3 = (p3, st3')"
        by (cases "settle env p2 st3")
      from settle_log[OF s3'] obtain e3' where
        l3': "log st3' = log st3 @ e3'" and c3': "calm e3'" by blast
      obtain r4 st4 where s4: "getPlatforms env projectName st3' = (r4, st4)"
        by (cases "getPlatforms env projectName st3'")
      from getPlatforms_log[OF s4] obtain e4 where
        l4: "log st4 = log st3' @ e4" and c4: "calm e4"
        using only_stat_calm by auto
      have l14: "log st4 = log st @ (e1 @ e2 @ e3 @ e3' @ e4)" "calm (e1 @ e2 @ e3 @ e3' @ e4)"
        using l13 l3' l4 c3' c4 by (simp_all add: calm_append)
      have early: ?thesis if "st' = st4"
        using that l14 by (intro quiet[of "e1 @ e2 @ e3 @ e3' @ e4"]) simp_all
      show ?thesis
      proof (cases r4)
        case (Inl e)
        then have "st' = st4"
          using assms s1 s2 s3 s3' s4 Inr pn by (simp add: stages_def validArtAssets_def)
        then show ?thesis by (rule early)
      next
        case q: (Inr promise)
        show ?thesis
        proof (cases promise)
          case (Inl e)
          then have "st' = st4"
            using assms s1 s2 s3 s3' s4 Inr pn q by (simp add: stages_def validArtAssets_def)
          then show ?thesis by (rule early)
        next
          case ps: (Inr platforms)
          obtain p4 st4' where s4': "settle env p3 st4 = (p4, st4')"
            by (cases "settle env p3 st4")
          from settle_log[OF s4'] obtain e4' where
            l4': "log st4' = log st4 @ e4'" and c4': "calm e4'" by blast
          have g: "generate env platforms st4' = (r, st')"
            using assms s1 s2 s3 s3' s4 s4' Inr pn q ps by (simp add: stages_def validArtAssets_def)
          from generate_requests[OF g] obtain e5 where
            l5: "log st' = log st4' @ e5" and png: "requests_png e5" and stop: "stops_at_failure r e5"
            by auto
          have c15: "calm (e1 @ e2 @ e3 @ e3' @ e4 @ e4')"
            using l14(2) c4' by (simp add: calm_append)
          have "log st' = log st @ ((e1 @ e2 @ e3 @ e3' @ e4 @ e4') @ e5)"
            using l14 l4' l5 by simp
          moreover have "requests_png ((e1 @ e2 @ e3 @ e3' @ e4 @ e4') @ e5)"
            using calm_requests_png[OF c15] png by (simp add: requests_png_append)
          moreover have "stops_at_failure r ((e1 @ e2 @ e3 @ e3' @ e4 @ e4') @ e5)"
            using c15 stop by (rule stops_prepend)
          ultimately show ?thesis by blast
        qed
      qed
    qed
  qed
qed

lemma run_trace:
  assumes "run env st = (r, st')"
  shows "\<exists>evs. log st' = log st @ evs \<and> requests_png evs
           \<and> (clean evs
               \<or> (\<exists>pre opts e. evs = pre @ [Resize opts (Some e), ErrorMsg e, Newline]
                     \<and> clean pre \<and> r = Some e))" (is ?G)
proof -
  let ?hd = "Header ''Checking Project, Icon, and Splash''"
  let ?st0 = "emit ?hd st"
  obtain r1 st1 where s1: "atLeastOnePlatformFound env ?st0 = (r1, st1)"
    by (cases "atLeastOnePlatformFound env ?st0")
  from atLeastOnePlatformFound_log[OF s1] obtain e1 where
    "log st1 = log ?st0 @ e1" and c1: "calm e1" by auto
  then have l1: "log st1 = log st @ (?hd # e1)" by (simp add: emit_def)
  have c1': "calm (?hd # e1)" using c1 by (simp add: calm_Cons)
  have k1: "clean e1" "requests_png e1"
    using c1 by (simp_all add: calm_clean calm_requests_png)
  have quiet: "?G" if "calm post" "log st' = log st1 @ post" for post
  proof -
    from that have "log st' = log st @ ((?hd # e1) @ post)" "calm ((?hd # e1) @ post)"
      using l1 c1 by (simp_all add: calm_append calm_Cons)
    then show ?thesis
      using calm_requests_png calm_clean by blast
  qed
  show ?thesis
  proof (cases r1)
    case (Inl e)
    then have "st' = st1" using assms s1 by (simp add: run_def Let_def)
    then show ?thesis using quiet[of "[]"] by (simp add: calm_Nil)
  next
    case (Inr p)
    show ?thesis
    proof (cases p)
      case (Inl e)
      then have "st' = emit Newline (emit (ErrorMsg e) st1)"
        using assms s1 Inr by (simp add: run_def Let_def)
      then have "log st' = log st1 @ [ErrorMsg e, Newline]" by (simp add: emit_def)
      moreover have "calm [ErrorMsg e, Newline]" by (simp add: calm_def)
      ultimately show ?thesis using quiet by blast
    next
      case u: (Inr u)
      obtain r2 st2 where s2: "stages env st1 = (r2, st2)"
        by (cases "stages env st1")
      from stages_trace[OF s2] obtain e2 where
        l2: "log st2 = log st1 @ e2" and png: "requests_png e2" and stop: "stops_at_failure r2 e2"
        by blast
      show ?thesis
      proof (cases r2)
        case ok: (Inr v)
        then have "st' = emit Newline st2"
          using assms s1 Inr u s2 by (simp add: run_def Let_def)
        then have l: "log st' = log st @ ((?hd # e1) @ e2 @ [Newline])"
          using l1 l2 by (simp add: emit_def)
        have "clean e2" using stop ok by (auto simp: stops_at_failure_def)
        then have "clean ((?hd # e1) @ e2 @ [Newline])"
          using k1 by (simp add: clean_append clean_Cons clean_Nil)
        moreover have "requests_png ((?hd # e1) @ e2 @ [Newline])"
          using k1 png by (simp add: requests_png_append requests_png_Cons requests_png_Nil)
        ultimately show ?thesis using l by blast
      next
        case bad: (Inl e)
        then have r: "r = Some e" and "st' = emit Newline (emit (ErrorMsg e) st2)"
          using assms s1 Inr u s2 by (simp_all add: run_def Let_def)
        then have l: "log st' = log st @ ((?hd # e1) @ e2 @ [ErrorMsg e, Newline])"
          using l1 l2 by (simp add: emit_def)
        have png': "requests_png ((?hd # e1) @ e2 @ [ErrorMsg e, Newline])"
          using k1 png by (simp add: requests_png_append requests_png_Cons requests_png_Nil)
        from stop consider "clean e2"
          | pre opts e' where "e2 = pre @ [Resize opts (Some e')]" "clean pre" "r2 = Inl e'"
          unfolding stops_at_failure_def by blast
        then show ?thesis
        proof cases
          case 1
          then have "clean ((?hd # e1) @ e2 @ [ErrorMsg e, Newline])"
            using k1 by (simp add: clean_append clean_Cons clean_Nil)
          with l png' show ?thesis by blast
        next
          case 2
          then have e: "e' = e" using bad by simp
          have "(?hd # e1) @ e2 @ [ErrorMsg e, Newline]
                  = ((?hd # e1) @ pre) @ [Resize opts (Some e), ErrorMsg e, Newline]"
            using 2(1) e by simp
          moreover have "clean ((?hd # e1) @ pre)"
            using k1 2(2) by (simp add: clean_append clean_Cons)
          ultimately show ?thesis using l png' r by metis
        qed
      qed
    qed
  qed
qed

lemma failure_position:
  assumes pre: "clean pre" and rest: "clean rest"
      and eq: "pre @ Resize opts (Some e) # rest = pre' @ Resize opts' (Some e') # post"
  shows "pre' = pre \<and> opts' = opts \<and> e' = e \<and> post = rest"
proof -
  from eq consider us where "pre = pre' @ us" "us @ Resize opts (Some e) # rest = Resize opts' (Some e') # post"
    | us where "pre @ us = pre'" "Resize opts (Some e) # rest = us @ Resize opts' (Some e') # post"
    by (auto simp: append_eq_append_conv2)
  then show ?thesis
  proof cases
    case 1
    show ?thesis
    proof (cases us)
      case Nil
      with 1 show ?thesis by simp
    next
      case (Cons x xs)
      with 1 have "Resize opts' (Some e') \<in> set pre" by simp
      with pre show ?thesis by (simp add: clean_def)
    qed
  next
    case 2
    show ?thesis
    proof (cases us)
      case Nil
      with 2 show ?thesis by simp
    next
      case (Cons x xs)
      with 2 have "Resize opts' (Some e') \<in> set rest" by simp
      with rest show ?thesis by (simp add: clean_def)
    qed
  qed
qed

section \<open>Path templating: what processPath does to a project name\<close>

text \<open>
  Where the code and the specification agree: for a project name without a dollar sign
  processPath is the literal replacement, and for any project name a template in which
  the placeholder occurs nowhere comes back unchanged.
\<close>

lemma getSubstitution_plain: "CHR ''$'' \<notin> set r \<Longrightarrow> getSubstitution m b a r = r"
  by (induction m b a r rule: getSubstitution.induct) auto

lemma replace_from_plain:
  "CHR ''$'' \<notin> set r \<Longrightarrow> replace_from b s r = replace_literal s r"
  by (induction b s r rule: replace_from.induct) (simp_all add: getSubstitution_plain)

lemma processPath_plain_name:
  "CHR ''$'' \<notin> set projectName \<Longrightarrow> processPath path projectName = replace_literal path projectName"
  by (simp add: processPath_def replace_from_plain)

lemma replace_from_without_token:
  "\<forall>i. \<not> prefix projectNameRE (drop i s) \<Longrightarrow> replace_from b s r = s"
proof (induction s arbitrary: b)
  case Nil
  then show ?case by simp
next
  case (Cons c cs)
  from Cons.prems have "\<not> prefix projectNameRE (drop 0 (c # cs))" by blast
  then have here: "\<not> prefix projectNameRE (c # cs)" by simp
  have "\<forall>i. \<not> prefix projectNameRE (drop i cs)"
  proof
    fix i
    from Cons.prems have "\<not> prefix projectNameRE (drop (Suc i) (c # cs))" by blast
    then show "\<not> prefix projectNameRE (drop i cs)" by simp
  qed
  from Cons.IH[OF this] here show ?case by simp
qed

lemma processPath_without_token:
  "\<forall>i. \<not> prefix projectNameRE (drop i path) \<Longrightarrow> processPath path projectName = path"
  by (simp add: processPath_def replace_from_without_token)

text \<open>
  C8. The claim: processPath replaces every occurrence of the placeholder with the
  project name. Evaluated on the template \<open>$PROJECT_NAME/icons\<close> and the project name
  \<open>Ca$$h\<close>: the result is \<open>Ca$h/icons\<close>, not \<open>Ca$$h/icons\<close>, because \<open>replace\<close> reads \<open>$$\<close> in
  its second argument as an escaped dollar sign.
\<close>

theorem processPath_dollar_name:
  "processPath ''$PROJECT_NAME/icons'' ''Ca$$h'' = ''Ca$h/icons''"
  by (simp add: processPath_def projectNameRE_def)

section \<open>Unfolding the model on the sample project\<close>

lemmas model_defs =
  run_def stages_def atLeastOnePlatformFound_def getPlatforms_def getProjectName_def
  configFileExists_def validArtAssets_def validArtAssets_promise_def answer_def validIconExists_def
  validSplashExists_def validParamFile_def generate_def processPlatformFor_def
  generateIcons_def generateSplashes_def generateArtAssets_def generateIcon_def
  generateSplash_def generateArtAsset_def emit_def new_events_def rootDirectories_def
  processPath_def projectNameRE_def truthy_def js_str_def or_default_def or_empty_def Let_def

lemmas sample_defs =
  ex_env_def ex_state_def ex_ios_def ex_android_def ex_ios_resolved_def ex_icons_def
  ex_splashes_def ex_doc_def env_second_resize_fails_def env_android_missing_def
  env_config_missing_def env_no_sources_def env_no_splash_def env_no_platform_def
  env_no_name_def env_roots_absent_def env_no_splash_late_def ex_state_empty_icon_def
  ex_state_no_config_def

section \<open>Generation: order of the resize calls\<close>

text \<open>
  C1, as stated, says that a platform that is added, with three icon and two splash
  specifications and both sources present (non-null), always gets exactly five resize
  calls. Counterexample, at three inputs that meet these conditions: in the sample
  project where the second resize fails, generate makes two calls (the three others
  are never made); with an icon source that is the empty string (not \<open>null\<close>, and falsy
  for processPlatformFor), it makes the two splash calls only; without a configuration
  path it makes none.
\<close>

theorem fewer_than_five_calls:
  "isAdded ex_ios_resolved
   \<and> iconAssets (descriptor ex_ios_resolved) = Some ex_icons \<and> length ex_icons = 3
   \<and> splashAssets (descriptor ex_ios_resolved) = Some ex_splashes \<and> length ex_splashes = 2
   \<and> icon (prog ex_state) = Some ''/p/icon.png''
   \<and> splash (prog ex_state) = Some ''/p/splash.png''
   \<and> length (resize_calls (new_events ex_state
         (snd (generate env_second_resize_fails [ex_ios_resolved] ex_state)))) = 2
   \<and> icon (prog ex_state_empty_icon) = Some []
   \<and> splash (prog ex_state_empty_icon) = Some ''/p/splash.png''
   \<and> length (resize_calls (new_events ex_state_empty_icon
         (snd (generate ex_env [ex_ios_resolved] ex_state_empty_icon)))) = 2
   \<and> icon (prog ex_state_no_config) = Some ''/p/icon.png''
   \<and> splash (prog ex_state_no_config) = Some ''/p/splash.png''
   \<and> length (resize_calls (new_events ex_state_no_config
         (snd (generate ex_env [ex_ios_resolved] ex_state_no_config)))) = 0"
  by (simp add: model_defs sample_defs)

text \<open>
  C1, amended: for a platform that is added, with icon specifications \<open>i1, i2, i3\<close> and
  splash specifications \<open>s1, s2\<close>, both sources present and not the empty string, and a
  configuration path, if none of the resize calls that generate makes fails, then
  generate makes exactly five resize calls: the three icons in declared order, then the
  two splashes in declared order, each with the source of its type, its own output
  directory, its name and its dimensions.
\<close>

theorem generate_icons_then_splashes:
  assumes added: "isAdded platform"
      and icons: "iconAssets (descriptor platform) = Some [i1, i2, i3]"
      and splashes: "splashAssets (descriptor platform) = Some [s1, s2]"
      and isrc: "icon (prog st) = Some isrc" "isrc \<noteq> []"
      and ssrc: "splash (prog st) = Some ssrc" "ssrc \<noteq> []"
      and cfg: "config (prog st) = Some c"
      and none_fails: "clean (new_events st (snd (generate env [platform] st)))"
  shows "resize_calls (new_events st (snd (generate env [platform] st)))
           = [resize_request env c (Some isrc) (own_iconPath platform) (asset_name i1)
                (asset_size i1, asset_size i1),
              resize_request env c (Some isrc) (own_iconPath platform) (asset_name i2)
                (asset_size i2, asset_size i2),
              resize_request env c (Some isrc) (own_iconPath platform) (asset_name i3)
                (asset_size i3, asset_size i3),
              resize_request env c (Some ssrc) (own_splashPath platform) (asset_name s1)
                (asset_width s1, asset_height s1),
              resize_request env c (Some ssrc) (own_splashPath platform) (asset_name s2)
                (asset_width s2, asset_height s2)]
         \<and> fst (generate env [platform] st) = Inr ()"
proof -
  obtain r st' where g: "generate env [platform] st = (r, st')"
    by (cases "generate env [platform] st")
  from generate_trace[OF g] obtain evs where
    st': "st' = st\<lparr>log := log st @ evs\<rparr>" and
    fin: "r = Inr () \<longrightarrow> resize_calls evs = work_units env (prog st) [platform] \<and> clean evs" and
    bad: "\<forall>e. r = Inl e \<longrightarrow>
            (config (prog st) = None \<and> e = TypeError \<and> clean evs)
            \<or> (\<exists>pre opts. evs = pre @ [Resize opts (Some e)] \<and> clean pre)"
    by blast
  have n: "new_events st st' = evs"
    using st' by (simp add: new_events_def)
  have cl: "clean evs"
    using none_fails g n by simp
  have r: "r = Inr ()"
  proof (cases r)
    case (Inl e)
    with bad cfg obtain pre opts where "evs = pre @ [Resize opts (Some e)]" by auto
    with cl show ?thesis by (auto simp: clean_def)
  next
    case (Inr u)
    then show ?thesis by simp
  qed
  with fin have "resize_calls evs = work_units env (prog st) [platform]" by simp
  moreover have "work_units env (prog st) [platform]
           = [resize_request env c (Some isrc) (own_iconPath platform) (asset_name i1)
                (asset_size i1, asset_size i1),
              resize_request env c (Some isrc) (own_iconPath platform) (asset_name i2)
                (asset_size i2, asset_size i2),
              resize_request env c (Some isrc) (own_iconPath platform) (asset_name i3)
                (asset_size i3, asset_size i3),
              resize_request env c (Some ssrc) (own_splashPath platform) (asset_name s1)
                (asset_width s1, asset_height s1),
              resize_request env c (Some ssrc) (own_splashPath platform) (asset_name s2)
                (asset_width s2, asset_height s2)]"
    using added icons splashes isrc ssrc cfg
    by (simp add: work_units_def phase_units_def asset_units_def truthy_def)
  ultimately show ?thesis using g r n by simp
qed

text \<open>
  C1, witness: in the sample project no resize call of generate fails, and these five
  calls are made.
\<close>

theorem generate_icons_then_splashes_witness:
  "isAdded ex_ios_resolved
   \<and> iconAssets (descriptor ex_ios_resolved) = Some ex_icons
   \<and> splashAssets (descriptor ex_ios_resolved) = Some ex_splashes
   \<and> clean (new_events ex_state (snd (generate ex_env [ex_ios_resolved] ex_state)))
   \<and> resize_calls (new_events ex_state (snd (generate ex_env [ex_ios_resolved] ex_state)))
       = [\<lparr>srcPath = Some ''/p/icon.png'', dstPath = ''/p/platforms/ios/App/icons/a.png'',
           quality = 1, format = ''png'', width = Some 29, height = Some 29\<rparr>,
          \<lparr>srcPath = Some ''/p/icon.png'', dstPath = ''/p/platforms/ios/App/icons/b.png'',
           quality = 1, format = ''png'', width = Some 58, height = Some 58\<rparr>,
          \<lparr>srcPath = Some ''/p/icon.png'', dstPath = ''/p/platforms/ios/App/icons/c.png'',
           quality = 1, format = ''png'', width = Some 87, height = Some 87\<rparr>,
          \<lparr>srcPath = Some ''/p/splash.png'', dstPath = ''/p/platforms/ios/App/splash/s.png'',
           quality = 1, format = ''png'', width = Some 320, height = Some 480\<rparr>,
          \<lparr>srcPath = Some ''/p/splash.png'', dstPath = ''/p/platforms/ios/App/splash/t.png'',
           quality = 1, format = ''png'', width = Some 640, height = Some 960\<rparr>]"
proof -
  have cl: "clean (new_events ex_state (snd (generate ex_env [ex_ios_resolved] ex_state)))"
    by (simp add: model_defs sample_defs clean_def)
  from generate_icons_then_splashes[of ex_ios_resolved
         "ex_icons ! 0" "ex_icons ! 1" "ex_icons ! 2" "ex_splashes ! 0" "ex_splashes ! 1"
         ex_state "''/p/icon.png''" "''/p/splash.png''" "''/p/config.xml''" ex_env, OF _ _ _ _ _ _ _ _ cl]
  show ?thesis
    using cl by (simp add: sample_defs resize_request_def)
qed

section \<open>Generation: the first failure ends the run\<close>

text \<open>
  C5. Whatever the platforms and the environment: when a resize call fails during
  generate, it is the last thing generate does, and generate is rejected with that
  error; in the whole run, the only things that follow it are the error report and the
  final empty line, so no later resize is made for any platform or asset type, and the
  run ends with that error. The log only grows: what was done before the failure stays
  done (the code has no operation that removes an asset).
\<close>

theorem resize_failure_ends_run:
  "(\<forall>pre opts e post.
      new_events st (snd (generate env platforms st)) = pre @ Resize opts (Some e) # post
      \<longrightarrow> post = [] \<and> fst (generate env platforms st) = Inl e)
   \<and> (\<forall>pre opts e post.
      new_events st (snd (run env st)) = pre @ Resize opts (Some e) # post
      \<longrightarrow> post = [ErrorMsg e, Newline] \<and> fst (run env st) = Some e)
   \<and> log (snd (generate env platforms st))
       = log st @ new_events st (snd (generate env platforms st))
   \<and> log (snd (run env st)) = log st @ new_events st (snd (run env st))"
proof -
  obtain r st' where g: "generate env platforms st = (r, st')"
    by (cases "generate env platforms st")
  from generate_requests[OF g] obtain evs where
    l: "log st' = log st @ evs" and stop: "stops_at_failure r evs" by auto
  have n: "new_events st st' = evs" using l by (simp add: new_events_def)
  have gen: "post = [] \<and> r = Inl e" if "evs = pre @ Resize opts (Some e) # post" for pre opts e post
  proof -
    from that have "\<not> clean evs" by (auto simp: clean_def)
    with stop obtain pre0 opts0 e0 where
      ev: "evs = pre0 @ [Resize opts0 (Some e0)]" and c0: "clean pre0" and r0: "r = Inl e0"
      unfolding stops_at_failure_def by blast
    from ev that have "pre0 @ Resize opts0 (Some e0) # [] = pre @ Resize opts (Some e) # post"
      by simp
    from failure_position[OF c0 clean_Nil this] r0 show ?thesis by simp
  qed
  obtain q st2 where ru: "run env st = (q, st2)"
    by (cases "run env st")
  from run_trace[OF ru] obtain evs2 where
    l2: "log st2 = log st @ evs2" and
    sh: "clean evs2 \<or> (\<exists>pre opts e. evs2 = pre @ [Resize opts (Some e), ErrorMsg e, Newline]
                           \<and> clean pre \<and> q = Some e)" by blast
  have n2: "new_events st st2 = evs2" using l2 by (simp add: new_events_def)
  have whole: "post = [ErrorMsg e, Newline] \<and> q = Some e"
    if "evs2 = pre @ Resize opts (Some e) # post" for pre opts e post
  proof -
    from that have "\<not> clean evs2" by (auto simp: clean_def)
    with sh obtain pre0 opts0 e0 where
      ev: "evs2 = pre0 @ [Resize opts0 (Some e0), ErrorMsg e0, Newline]" and
      c0: "clean pre0" and q0: "q = Some e0"
      by blast
    have c1: "clean [ErrorMsg e0, Newline]" by (simp add: clean_def)
    from ev that
    have "pre0 @ Resize opts0 (Some e0) # [ErrorMsg e0, Newline] = pre @ Resize opts (Some e) # post"
      by simp
    from failure_position[OF c0 c1 this] q0 show ?thesis by simp
  qed
  have "\<forall>pre opts e post. new_events st st' = pre @ Resize opts (Some e) # post
          \<longrightarrow> post = [] \<and> r = Inl e"
    unfolding n using gen by blast
  moreover have "\<forall>pre opts e post. new_events st st2 = pre @ Resize opts (Some e) # post
          \<longrightarrow> post = [ErrorMsg e, Newline] \<and> q = Some e"
    unfolding n2 using whole by blast
  moreover have "log st' = log st @ new_events st st'" "log st2 = log st @ new_events st st2"
    unfolding n n2 using l l2 by simp_all
  ultimately show ?thesis
    unfolding g ru fst_conv snd_conv by blast
qed

text \<open>
  C5, witness: in the sample project the second resize fails; the first asset stays
  produced, nothing follows the failure but its report, and both generate and the run
  end with that error.
\<close>

theorem resize_failure_ends_run_witness:
  "new_events ex_state (snd (generate env_second_resize_fails [ex_ios_resolved] ex_state))
     = [Header ''Generating icon assets for ios'',
        Resize \<lparr>srcPath = Some ''/p/icon.png'', dstPath = ''/p/platforms/ios/App/icons/a.png'',
                quality = 1, format = ''png'', width = Some 29, height = Some 29\<rparr> None,
        Success ''a.png created'']
       @ Resize \<lparr>srcPath = Some ''/p/icon.png'', dstPath = ''/p/platforms/ios/App/icons/b.png'',
                 quality = 1, format = ''png'', width = Some 58, height = Some 58\<rparr>
           (Some (ResizeError ''convert'')) # []
   \<and> fst (generate env_second_resize_fails [ex_ios_resolved] ex_state)
       = Inl (ResizeError ''convert'')
   \<and> fst (run env_second_resize_fails ex_state) = Some (ResizeError ''convert'')"
proof -
  let ?pre = "[Header ''Generating icon assets for ios'',
        Resize \<lparr>srcPath = Some ''/p/icon.png'', dstPath = ''/p/platforms/ios/App/icons/a.png'',
                quality = 1, format = ''png'', width = Some 29, height = Some 29\<rparr> None,
        Success ''a.png created'']"
  let ?opts = "\<lparr>srcPath = Some ''/p/icon.png'', dstPath = ''/p/platforms/ios/App/icons/b.png'',
                 quality = 1, format = ''png'', width = Some 58, height = Some 58\<rparr>"
  let ?pre2 = "[Header ''Checking Project, Icon, and Splash'',
        Stat ''/p/platforms/android'' (Inr True),
        Stat ''/p/platforms/ios'' (Inr True),
        Success ''platforms found: android, ios'',
        ReadFile (Some ''/p/config.xml'') None,
        Success (''cordova'' @ [CHR 0x27] @ ''s /p/config.xml exists''),
        ReadFile (Some ''/p/icon.png'') None,
        Success ''icon asset exists at: /p/icon.png'',
        ReadFile (Some ''/p/splash.png'') None,
        Success ''splash asset exists at: /p/splash.png'',
        ReadFile (Some ''/p/config.xml'') None,
        Stat ''/p/platforms/android'' (Inr True),
        Stat ''/p/platforms/ios'' (Inr True)] @ ?pre"
  have a: "new_events ex_state (snd (generate env_second_resize_fails [ex_ios_resolved] ex_state))
             = ?pre @ Resize ?opts (Some (ResizeError ''convert'')) # []"
    by (simp add: model_defs sample_defs)
  have b: "new_events ex_state (snd (run env_second_resize_fails ex_state))
             = ?pre2 @ Resize ?opts (Some (ResizeError ''convert''))
                 # [ErrorMsg (ResizeError ''convert''), Newline]"
    by (simp add: model_defs sample_defs)
  note inst = resize_failure_ends_run[of ex_state env_second_resize_fails "[ex_ios_resolved]"]
  from inst a have "fst (generate env_second_resize_fails [ex_ios_resolved] ex_state)
       = Inl (ResizeError ''convert'')" by blast
  moreover from inst b have "fst (run env_second_resize_fails ex_state) = Some (ResizeError ''convert'')"
    by blast
  ultimately show ?thesis using a by simp
qed

section \<open>Generation: what every resize call is given\<close>

text \<open>
  C10. Every resize call made by generate has quality 1 and format png, and is the call
  for one asset specification of one added platform: the source of that asset type, the
  platform's output directory for the type (resolved against the project root) joined
  with the specification's name, and the specification's dimensions. Every resize call
  of a whole run has quality 1 and format png.
\<close>

theorem resize_options_fixed:
  "(\<forall>opts res. Resize opts res \<in> set (new_events st (snd (generate env platforms st))) \<longrightarrow>
      quality opts = 1 \<and> format opts = ''png''
      \<and> (\<exists>c platform type a assets.
            config (prog st) = Some c \<and> platform \<in> set platforms \<and> isAdded platform
            \<and> assets_of type platform = Some assets \<and> a \<in> set assets
            \<and> srcPath opts = source (prog st) type
            \<and> dstPath opts = path_join env (path_resolve env (path_dirname env c)
                                              (path_of type platform)) (asset_name a)
            \<and> (width opts, height opts) = dimensions type a))
   \<and> (\<forall>opts res. Resize opts res \<in> set (new_events st (snd (run env st))) \<longrightarrow>
      quality opts = 1 \<and> format opts = ''png'')"
proof -
  obtain r st' where g: "generate env platforms st = (r, st')"
    by (cases "generate env platforms st")
  from generate_requests[OF g] obtain evs where
    l: "log st' = log st @ evs" and
    sub: "set (resize_calls evs) \<subseteq> set (work_units env (prog st) platforms)" by auto
  have n: "new_events st st' = evs" using l by (simp add: new_events_def)
  have gen: "quality opts = 1 \<and> format opts = ''png''
      \<and> (\<exists>c platform type a assets.
            config (prog st) = Some c \<and> platform \<in> set platforms \<and> isAdded platform
            \<and> assets_of type platform = Some assets \<and> a \<in> set assets
            \<and> srcPath opts = source (prog st) type
            \<and> dstPath opts = path_join env (path_resolve env (path_dirname env c)
                                              (path_of type platform)) (asset_name a)
            \<and> (width opts, height opts) = dimensions type a)"
    if "Resize opts res \<in> set evs" for opts res
  proof -
    from that sub have "opts \<in> set (work_units env (prog st) platforms)"
      using resize_calls_mem by blast
    from work_units_mem[OF this] obtain c platform type a assets where
      "config (prog st) = Some c" "platform \<in> set platforms" "isAdded platform"
      "assets_of type platform = Some assets" "a \<in> set assets"
      "opts = resize_request env c (source (prog st) type) (path_of type platform)
                (asset_name a) (dimensions type a)" by blast
    then show ?thesis
      by (auto simp: resize_request_def)
  qed
  obtain q st2 where ru: "run env st = (q, st2)"
    by (cases "run env st")
  from run_trace[OF ru] obtain evs2 where
    l2: "log st2 = log st @ evs2" and png: "requests_png evs2" by blast
  have n2: "new_events st st2 = evs2" using l2 by (simp add: new_events_def)
  show ?thesis
    using g ru n n2 gen png unfolding requests_png_def by simp
qed

text \<open>C10, witness: the last splash request of the sample project.\<close>

theorem resize_options_fixed_witness:
  "Resize \<lparr>srcPath = Some ''/p/splash.png'', dstPath = ''/p/platforms/ios/App/splash/t.png'',
           quality = 1, format = ''png'', width = Some 640, height = Some 960\<rparr> None
     \<in> set (new_events ex_state (snd (generate ex_env [ex_ios_resolved] ex_state)))
   \<and> Resize \<lparr>srcPath = Some ''/p/splash.png'', dstPath = ''/p/platforms/ios/App/splash/t.png'',
           quality = 1, format = ''png'', width = Some 640, height = Some 960\<rparr> None
     \<in> set (new_events ex_state (snd (run ex_env ex_state)))
   \<and> quality \<lparr>srcPath = Some ''/p/splash.png'', dstPath = ''/p/platforms/ios/App/splash/t.png'',
           quality = 1, format = ''png'', width = Some 640, height = Some 960\<rparr> = 1"
proof -
  let ?o = "\<lparr>srcPath = Some ''/p/splash.png'', dstPath = ''/p/platforms/ios/App/splash/t.png'',
           quality = 1, format = ''png'', width = Some 640, height = Some 960\<rparr>"
  have a: "Resize ?o None \<in> set (new_events ex_state (snd (generate ex_env [ex_ios_resolved] ex_state)))"
    by (simp add: model_defs sample_defs)
  have b: "Resize ?o None \<in> set (new_events ex_state (snd (run ex_env ex_state)))"
    by (simp add: model_defs sample_defs)
  from resize_options_fixed[of ex_state ex_env "[ex_ios_resolved]"] a
  have "quality ?o = 1" by blast
  with a b show ?thesis by simp
qed

section \<open>Validation: no platform added\<close>

text \<open>
  Where the code and the specification agree: when platform resolution, the first thing
  the run does after its header, is fulfilled (every root answered its probe) with
  platforms none of which is added, the run ends with NoPlatformsError, and nothing it
  did is a file read or a resize call (the header, the probes of the platform roots,
  the error report and the final empty line are all there is); the program object is
  as it was.
\<close>

lemma no_platform_stops_first:
  assumes probe: "getPlatforms env Undefined (emit (Header ''Checking Project, Icon, and Splash'') st)
                    = (Inr (Inr platforms), st1)"
      and none: "filter isAdded platforms = []"
  shows "fst (run env st) = Some NoPlatformsError
         \<and> (\<forall>ev\<in>set (new_events st (snd (run env st))).
               (\<forall>loc res. ev \<noteq> ReadFile loc res) \<and> (\<forall>opts res. ev \<noteq> Resize opts res))
         \<and> prog (snd (run env st)) = prog st"
proof -
  let ?hd = "Header ''Checking Project, Icon, and Splash''"
  from getPlatforms_log[OF probe] obtain evs where
    st1: "st1 = (emit ?hd st)\<lparr>log := log (emit ?hd st) @ evs\<rparr>" and
    only: "\<forall>ev\<in>set evs. \<exists>path res. ev = Stat path res" by blast
  have r: "run env st = (Some NoPlatformsError, emit Newline (emit (ErrorMsg NoPlatformsError) st1))"
    using probe none by (simp add: run_def atLeastOnePlatformFound_def Let_def)
  have "log (emit Newline (emit (ErrorMsg NoPlatformsError) st1))
          = log st @ (?hd # evs @ [ErrorMsg NoPlatformsError, Newline])"
    using st1 by (simp add: emit_def)
  then have n: "new_events st (emit Newline (emit (ErrorMsg NoPlatformsError) st1))
          = ?hd # evs @ [ErrorMsg NoPlatformsError, Newline]"
    by (simp add: new_events_def)
  have p: "prog (emit Newline (emit (ErrorMsg NoPlatformsError) st1)) = prog st"
    using st1 by (simp add: emit_def)
  show ?thesis
    unfolding r fst_conv snd_conv n p using only by auto
qed

text \<open>
  The only way there: both platform roots exist and are plain files. Resolution is
  fulfilled with two platforms that are not added, and the run ends with
  NoPlatformsError.
\<close>

lemma no_platform_stops_first_example:
  "fst (getPlatforms env_no_platform Undefined
          (emit (Header ''Checking Project, Icon, and Splash'') ex_state))
     = Inr (Inr [\<lparr>descriptor = ex_android, isAdded = False,
                  own_iconPath = ''/p/platforms/android/res'',
                  own_splashPath = ''/p/platforms/android/res''\<rparr>,
                 \<lparr>descriptor = ex_ios, isAdded = False,
                  own_iconPath = ''/p/platforms/ios//icons'',
                  own_splashPath = ''/p/platforms/ios//splash''\<rparr>])
   \<and> fst (run env_no_platform ex_state) = Some NoPlatformsError
   \<and> prog (snd (run env_no_platform ex_state)) = prog ex_state"
proof -
  let ?ps = "[\<lparr>descriptor = ex_android, isAdded = False,
                  own_iconPath = ''/p/platforms/android/res'',
                  own_splashPath = ''/p/platforms/android/res''\<rparr>,
                 \<lparr>descriptor = ex_ios, isAdded = False,
                  own_iconPath = ''/p/platforms/ios//icons'',
                  own_splashPath = ''/p/platforms/ios//splash''\<rparr>]"
  let ?st0 = "emit (Header ''Checking Project, Icon, and Splash'') ex_state"
  have a: "fst (getPlatforms env_no_platform Undefined ?st0) = Inr (Inr ?ps)"
    by (simp add: model_defs sample_defs)
  then have b: "getPlatforms env_no_platform Undefined ?st0
                  = (Inr (Inr ?ps), snd (getPlatforms env_no_platform Undefined ?st0))"
    by (metis prod.collapse)
  have c: "filter isAdded ?ps = []" by simp
  from no_platform_stops_first[OF b c] a show ?thesis by simp
qed

text \<open>
  C7. The claim: when no platform is added, validation fails with NoPlatformsError
  before any file is read and before anything is generated. Evaluated on the sample
  project where neither platform root exists, so that no platform is added: the probe
  of the first root is rejected with ENOENT, \<open>getPlatforms\<close> has no handler for it, and
  the run ends with that raw error, not with NoPlatformsError (no file is read and
  nothing is generated: that part holds). The \<open>throw\<close> of atLeastOnePlatformFound is
  reached only when every root exists and none is a directory.
\<close>

theorem absent_roots_raw_error:
  "fst (getPlatforms env_roots_absent Undefined
          (emit (Header ''Checking Project, Icon, and Splash'') ex_state))
     = Inr (Inl (FsError ''ENOENT''))
   \<and> new_events ex_state (snd (run env_roots_absent ex_state))
       = [Header ''Checking Project, Icon, and Splash'',
          Stat ''/p/platforms/android'' (Inl (FsError ''ENOENT'')),
          Stat ''/p/platforms/ios'' (Inl (FsError ''ENOENT'')),
          ErrorMsg (FsError ''ENOENT''), Newline]
   \<and> fst (run env_roots_absent ex_state) = Some (FsError ''ENOENT'')"
  by (simp add: model_defs sample_defs)

section \<open>The project name: a document without widget.name\<close>

text \<open>
  What \<open>result.widget.name[0]\<close> does to a document that has no \<open>widget.name\<close>: the
  TypeError of a property read on \<open>undefined\<close> (the error the specification calls
  SchemaError).
\<close>

lemma getProjectName_no_name:
  assumes "config (prog st) = Some c" and "fs_readFile env (log st) c = Inr data"
      and "parser_parseString env data = Inr doc" and "\<not> has_widget_name doc"
  shows "fst (getProjectName env st) = Inl TypeError"
proof (cases doc)
  case Undefined
  with assms show ?thesis by (simp add: getProjectName_def Let_def)
next
  case (Str s)
  with assms show ?thesis by (simp add: getProjectName_def Let_def)
next
  case (Arr xs)
  with assms show ?thesis by (simp add: getProjectName_def Let_def)
next
  case (Obj kvs)
  let ?w = "case map_of kvs ''widget'' of None \<Rightarrow> Undefined | Some v \<Rightarrow> v"
  have w: "js_prop doc ''widget'' = Inr ?w" using Obj by simp
  show ?thesis
  proof (cases "js_prop ?w ''name''")
    case (Inl e)
    then have "e = TypeError" "?w = Undefined" by (cases ?w; simp)+
    with assms w Inl show ?thesis by (simp add: getProjectName_def Let_def)
  next
    case (Inr nm)
    with assms w have "nm = Undefined" by (simp add: has_widget_name_def)
    with assms w Inr show ?thesis by (simp add: getProjectName_def Let_def)
  qed
qed

lemma stages_no_name:
  assumes cfg: "config (prog st) = Some c" and rd: "\<forall>h. fs_readFile env h c = Inr data"
      and ps: "parser_parseString env data = Inr doc" and nn: "\<not> has_widget_name doc"
  shows "\<exists>e st' evs. stages env st = (Inl e, st') \<and> log st' = log st @ evs \<and> calm evs"
proof -
  obtain r1 st1 where s1: "configFileExists env st = (r1, st1)"
    by (cases "configFileExists env st")
  from configFileExists_log[OF s1] obtain e1 where
    l1: "log st1 = log st @ e1" and c1: "calm e1" and p1: "prog st1 = prog st" by blast
  show ?thesis
  proof (cases r1)
    case (Inl e)
    then have "stages env st = (Inl e, st1)" using s1 by (simp add: stages_def)
    with l1 c1 show ?thesis by blast
  next
    case (Inr b)
    obtain p2 st2 where s2: "settle env [Icon, Splash] st1 = (p2, st2)"
      by (cases "settle env [Icon, Splash] st1")
    from settle_log[OF s2] obtain e2 where
      l2: "log st2 = log st1 @ e2" and c2: "calm e2" and p2: "config (prog st2) = config (prog st1)"
      by blast
    have cfg2: "config (prog st2) = Some c" using cfg p1 p2 by simp
    obtain r3 st3 where s3: "getProjectName env st2 = (r3, st3)"
      by (cases "getProjectName env st2")
    from getProjectName_log[OF s3] obtain e3 where
      l3: "log st3 = log st2 @ e3" and c3: "calm e3" by auto
    have "fst (getProjectName env st2) = Inl TypeError"
      using cfg2 rd ps nn by (intro getProjectName_no_name[of st2 c env data doc]) simp_all
    with s3 have r3: "r3 = Inl TypeError" by simp
    have "stages env st = (Inl TypeError, st3)"
      using s1 Inr s2 s3 r3 by (simp add: stages_def validArtAssets_def)
    moreover have "log st3 = log st @ (e1 @ e2 @ e3)" "calm (e1 @ e2 @ e3)"
      using l1 l2 l3 c1 c2 c3 by (simp_all add: calm_append)
    ultimately show ?thesis by blast
  qed
qed

text \<open>
  C9. When the configuration file is readable and parses to a document without a
  \<open>widget.name\<close> field, getProjectName is rejected (with the TypeError of the property
  read), the run ends with an error, and the whole run makes no resize call.
\<close>

theorem missing_name_no_generation:
  assumes cfg: "config (prog st) = Some c" and rd: "\<forall>h. fs_readFile env h c = Inr data"
      and ps: "parser_parseString env data = Inr doc" and nn: "\<not> has_widget_name doc"
  shows "fst (getProjectName env st) = Inl TypeError
         \<and> fst (run env st) \<noteq> None
         \<and> resize_calls (new_events st (snd (run env st))) = []"
proof -
  have a: "fst (getProjectName env st) = Inl TypeError"
    using cfg rd ps nn by (intro getProjectName_no_name[of st c env data doc]) simp_all
  let ?hd = "Header ''Checking Project, Icon, and Splash''"
  let ?st0 = "emit ?hd st"
  obtain r1 st1 where s1: "atLeastOnePlatformFound env ?st0 = (r1, st1)"
    by (cases "atLeastOnePlatformFound env ?st0")
  from atLeastOnePlatformFound_log[OF s1] obtain e1 where
    st1: "st1 = ?st0\<lparr>log := log ?st0 @ e1\<rparr>" and c1: "calm e1" by auto
  have l1: "log st1 = log st @ (?hd # e1)" and cfg1: "config (prog st1) = Some c"
    using st1 cfg by (simp_all add: emit_def)
  have "\<exists>e st' evs. run env st = (Some e, st') \<and> log st' = log st @ evs \<and> calm evs"
  proof (cases r1)
    case (Inl e)
    then have "run env st = (Some e, st1)" using s1 by (simp add: run_def Let_def)
    moreover have "calm (?hd # e1)" using c1 by (simp add: calm_Cons)
    ultimately show ?thesis using l1 by blast
  next
    case (Inr p)
    show ?thesis
    proof (cases p)
      case (Inl e)
      then have "run env st = (Some e, emit Newline (emit (ErrorMsg e) st1))"
        using s1 Inr by (simp add: run_def Let_def)
      moreover have "log (emit Newline (emit (ErrorMsg e) st1))
                       = log st @ (?hd # e1 @ [ErrorMsg e, Newline])"
        using l1 by (simp add: emit_def)
      moreover have "calm (?hd # e1 @ [ErrorMsg e, Newline])"
        using c1 by (simp add: calm_Cons calm_append calm_Nil)
      ultimately show ?thesis by blast
    next
      case u: (Inr u)
      from stages_no_name[OF cfg1 rd ps nn] obtain e st2 e2 where
        s2: "stages env st1 = (Inl e, st2)" and l2: "log st2 = log st1 @ e2" and c2: "calm e2"
        by blast
      have "run env st = (Some e, emit Newline (emit (ErrorMsg e) st2))"
        using s1 Inr u s2 by (simp add: run_def Let_def)
      moreover have "log (emit Newline (emit (ErrorMsg e) st2))
                       = log st @ (?hd # e1 @ e2 @ [ErrorMsg e, Newline])"
        using l1 l2 by (simp add: emit_def)
      moreover have "calm (?hd # e1 @ e2 @ [ErrorMsg e, Newline])"
        using c1 c2 by (simp add: calm_Cons calm_append calm_Nil)
      ultimately show ?thesis by blast
    qed
  qed
  then obtain e st' evs where
    "run env st = (Some e, st')" "log st' = log st @ evs" "calm evs" by blast
  then have "fst (run env st) \<noteq> None" "resize_calls (new_events st (snd (run env st))) = []"
    by (simp_all add: new_events_def calm_resize_calls)
  with a show ?thesis by simp
qed

text \<open>C9, witness: the sample project with a config.xml that is \<open><widget/>\<close>.\<close>

theorem missing_name_no_generation_witness:
  "config (prog ex_state) = Some ''/p/config.xml''
   \<and> parser_parseString env_no_name ''data'' = Inr (Obj [(''widget'', Obj [])])
   \<and> \<not> has_widget_name (Obj [(''widget'', Obj [])])
   \<and> fst (getProjectName env_no_name ex_state) = Inl TypeError
   \<and> fst (run env_no_name ex_state) \<noteq> None
   \<and> resize_calls (new_events ex_state (snd (run env_no_name ex_state))) = []"
proof -
  have a: "config (prog ex_state) = Some ''/p/config.xml''"
    by (simp add: ex_state_def)
  have b: "\<forall>h. fs_readFile env_no_name h ''/p/config.xml'' = Inr ''data''"
    by (simp add: env_no_name_def ex_env_def)
  have c: "parser_parseString env_no_name ''data'' = Inr (Obj [(''widget'', Obj [])])"
    by (simp add: env_no_name_def ex_env_def)
  have d: "\<not> has_widget_name (Obj [(''widget'', Obj [])])"
    by (simp add: has_widget_name_def)
  from missing_name_no_generation[OF a b c d] a c d show ?thesis by simp
qed

section \<open>Validation: a missing splash source\<close>

text \<open>
  What the two answers do when the icon source can be read and the splash source
  cannot: \<open>program.splash\<close> becomes \<open>null\<close>, the rest of \<open>program\<close> stays, and the warning
  is shown.
\<close>

lemma answers_no_splash:
  assumes i: "icon (prog st) = Some isrc" and s: "splash (prog st) = Some ssrc"
      and ri: "\<forall>h. \<exists>d. fs_readFile env h isrc = Inr d"
      and rs: "\<forall>h. \<exists>e. fs_readFile env h ssrc = Inl e"
  shows "prog (answer env Splash (answer env Icon st)) = (prog st)\<lparr>splash := None\<rparr>
         \<and> Warn ''splash asset was not specified''
             \<in> set (new_events st (answer env Splash (answer env Icon st)))"
proof -
  from ri obtain d where d: "fs_readFile env (log st) isrc = Inr d" by blast
  define st1 where "st1 = answer env Icon st"
  have p1: "prog st1 = prog st"
    and l1: "log st1 = log st @ [ReadFile (Some isrc) None,
                                  Success (''icon asset exists at: '' @ isrc)]"
    unfolding st1_def using i d
    by (simp_all add: answer_def validParamFile_def Let_def emit_def or_default_def js_str_def)
  from rs obtain e where e: "fs_readFile env (log st1) ssrc = Inl e" by blast
  have "prog (answer env Splash st1) = (prog st)\<lparr>splash := None\<rparr>"
       "log (answer env Splash st1)
          = log st1 @ [ReadFile (Some ssrc) (Some e), Warn ''splash asset was not specified'']"
    using s p1 e
    by (simp_all add: answer_def validParamFile_def Let_def emit_def or_default_def)
  with l1 show ?thesis
    unfolding st1_def by (simp add: new_events_def)
qed

text \<open>
  Where the code and the specification agree: when both reads are answered at once
  (before the configuration file is), the stages after the platform check, and then
  the whole run, from a state whose icon source can be read and whose splash source
  cannot, make resize calls for the icon source only.
\<close>

lemma stages_without_splash:
  assumes i: "icon (prog st) = Some isrc" and s: "splash (prog st) = Some ssrc"
      and ri: "\<forall>h. \<exists>d. fs_readFile env h isrc = Inr d"
      and rs: "\<forall>h. \<exists>e. fs_readFile env h ssrc = Inl e"
      and now: "\<forall>h t. read_answered env h t"
      and run: "stages env st = (r, st')"
  shows "\<exists>evs. log st' = log st @ evs
           \<and> (\<forall>opts res. Resize opts res \<in> set evs \<longrightarrow> srcPath opts = Some isrc)"
proof -
  have quiet: "\<exists>evs. log st' = log st @ evs
           \<and> (\<forall>opts res. Resize opts res \<in> set evs \<longrightarrow> srcPath opts = Some isrc)"
    if "log st' = log st @ evs" "calm evs" for evs
    using that by (auto simp: calm_def)
  obtain r1 st1 where s1: "configFileExists env st = (r1, st1)"
    by (cases "configFileExists env st")
  from configFileExists_log[OF s1] obtain e1 where
    l1: "log st1 = log st @ e1" and c1: "calm e1" and p1: "prog st1 = prog st" by blast
  show ?thesis
  proof (cases r1)
    case (Inl e)
    then have "st' = st1" using run s1 by (simp add: stages_def)
    with l1 c1 show ?thesis by (intro quiet[of e1]) simp_all
  next
    case (Inr b)
    define st2 where "st2 = answer env Splash (answer env Icon st1)"
    have s2: "settle env [Icon, Splash] st1 = ([], st2)"
      using now by (simp add: st2_def)
    from settle_log[OF s2] obtain e2 where
      l2: "log st2 = log st1 @ e2" and c2: "calm e2" by blast
    have "prog st2 = (prog st1)\<lparr>splash := None\<rparr>"
      unfolding st2_def
      using i s p1 ri rs by (intro answers_no_splash[of st1 isrc ssrc env, THEN conjunct1]) simp_all
    then have p2: "icon (prog st2) = Some isrc" "splash (prog st2) = None"
      using p1 i by simp_all
    obtain r3 st3 where s3: "getProjectName env st2 = (r3, st3)"
      by (cases "getProjectName env st2")
    from getProjectName_log[OF s3] obtain e3 where
      st3: "st3 = st2\<lparr>log := log st2 @ e3\<rparr>" and c3: "calm e3" by blast
    have l3: "log st3 = log st @ (e1 @ e2 @ e3)" and c13: "calm (e1 @ e2 @ e3)"
      using st3 l1 l2 c1 c2 c3 by (simp_all add: calm_append)
    show ?thesis
    proof (cases r3)
      case (Inl err)
      then have "st' = st3" using run s1 Inr s2 s3 by (simp add: stages_def validArtAssets_def)
      with l3 c13 show ?thesis by (intro quiet[of "e1 @ e2 @ e3"]) simp_all
    next
      case pn: (Inr projectName)
      obtain r4 st4 where s4: "getPlatforms env projectName st3 = (r4, st4)"
        by (cases "getPlatforms env projectName st3")
      from getPlatforms_log[OF s4] obtain e4 where
        st4: "st4 = st3\<lparr>log := log st3 @ e4\<rparr>" and c4: "calm e4"
        using only_stat_calm by blast
      have l4: "log st4 = log st @ (e1 @ e2 @ e3 @ e4)" and c14: "calm (e1 @ e2 @ e3 @ e4)"
        using st4 l3 c13 c4 by (simp_all add: calm_append)
      have p4: "icon (prog st4) = Some isrc" "splash (prog st4) = None"
        using st4 st3 p2 by simp_all
      have early: ?thesis if "st' = st4"
        using that l4 c14 by (intro quiet[of "e1 @ e2 @ e3 @ e4"]) simp_all
      show ?thesis
      proof (cases r4)
        case (Inl err)
        then have "st' = st4"
          using run s1 Inr s2 s3 pn s4 by (simp add: stages_def validArtAssets_def)
        then show ?thesis by (rule early)
      next
        case q: (Inr promise)
        show ?thesis
        proof (cases promise)
          case (Inl err)
          then have "st' = st4"
            using run s1 Inr s2 s3 pn s4 q by (simp add: stages_def validArtAssets_def)
          then show ?thesis by (rule early)
        next
          case ps: (Inr platforms)
          then have g: "generate env platforms st4 = (r, st')"
            using run s1 Inr s2 s3 pn s4 q by (simp add: stages_def validArtAssets_def)
          from generate_requests[OF g] obtain e5 where
            l5: "log st' = log st4 @ e5" and
            sub: "set (resize_calls e5) \<subseteq> set (work_units env (prog st4) platforms)" by auto
          have src: "srcPath opts = Some isrc" if "Resize opts res \<in> set e5" for opts res
          proof -
            from that sub have "opts \<in> set (work_units env (prog st4) platforms)"
              using resize_calls_mem by blast
            from work_units_mem[OF this] obtain c platform type a where
              t: "truthy (source (prog st4) type)" and
              o: "opts = resize_request env c (source (prog st4) type) (path_of type platform)
                          (asset_name a) (dimensions type a)" by blast
            from t p4 have "type = Icon" by (cases type) (simp_all add: truthy_def)
            with o p4 show ?thesis by (simp add: resize_request_def)
          qed
          have "log st' = log st @ ((e1 @ e2 @ e3 @ e4) @ e5)" using l4 l5 by simp
          moreover have "\<forall>opts res. Resize opts res \<in> set ((e1 @ e2 @ e3 @ e4) @ e5)
                           \<longrightarrow> srcPath opts = Some isrc"
            using c14 src unfolding calm_def set_append by blast
          ultimately show ?thesis by blast
        qed
      qed
    qed
  qed
qed

lemma run_without_splash:
  assumes i: "icon (prog st) = Some isrc" and s: "splash (prog st) = Some ssrc"
      and ri: "\<forall>h. \<exists>d. fs_readFile env h isrc = Inr d"
      and rs: "\<forall>h. \<exists>e. fs_readFile env h ssrc = Inl e"
      and now: "\<forall>h t. read_answered env h t"
  shows "\<forall>opts res. Resize opts res \<in> set (new_events st (snd (run env st)))
           \<longrightarrow> srcPath opts = Some isrc"
proof -
  let ?hd = "Header ''Checking Project, Icon, and Splash''"
  let ?st0 = "emit ?hd st"
  obtain r1 st1 where s1: "atLeastOnePlatformFound env ?st0 = (r1, st1)"
    by (cases "atLeastOnePlatformFound env ?st0")
  from atLeastOnePlatformFound_log[OF s1] obtain e1 where
    st1: "st1 = ?st0\<lparr>log := log ?st0 @ e1\<rparr>" and c1: "calm e1" by auto
  have l1: "log st1 = log st @ (?hd # e1)" and c1': "calm (?hd # e1)"
    and p1: "icon (prog st1) = Some isrc" "splash (prog st1) = Some ssrc"
    using st1 c1 i s by (simp_all add: emit_def calm_Cons)
  have quiet: ?thesis if "log (snd (run env st)) = log st @ evs" "calm evs" for evs
    using that by (auto simp: calm_def new_events_def)
  show ?thesis
  proof (cases r1)
    case (Inl e)
    then have "snd (run env st) = st1" using s1 by (simp add: run_def Let_def)
    with l1 c1' show ?thesis by (intro quiet[of "?hd # e1"]) simp_all
  next
    case (Inr p)
    show ?thesis
    proof (cases p)
      case (Inl e)
      then have "snd (run env st) = emit Newline (emit (ErrorMsg e) st1)"
        using s1 Inr by (simp add: run_def Let_def)
      then have "log (snd (run env st)) = log st @ (?hd # e1 @ [ErrorMsg e, Newline])"
        using l1 by (simp add: emit_def)
      moreover have "calm (?hd # e1 @ [ErrorMsg e, Newline])"
        using c1 by (simp add: calm_Cons calm_append calm_Nil)
      ultimately show ?thesis by (rule quiet)
    next
      case u: (Inr u)
      obtain r2 st2 where s2: "stages env st1 = (r2, st2)"
        by (cases "stages env st1")
      from stages_without_splash[OF p1 ri rs now s2] obtain e2 where
        l2: "log st2 = log st1 @ e2" and
        src: "\<forall>opts res. Resize opts res \<in> set e2 \<longrightarrow> srcPath opts = Some isrc" by blast
      have "\<exists>post. log (snd (run env st)) = log st2 @ post \<and> calm post"
      proof (cases r2)
        case (Inl e)
        then have "snd (run env st) = emit Newline (emit (ErrorMsg e) st2)"
          using s1 Inr u s2 by (simp add: run_def Let_def)
        then have "log (snd (run env st)) = log st2 @ [ErrorMsg e, Newline]"
          by (simp add: emit_def)
        moreover have "calm [ErrorMsg e, Newline]" by (simp add: calm_def)
        ultimately show ?thesis by blast
      next
        case (Inr v)
        then have "snd (run env st) = emit Newline st2"
          using s1 \<open>r1 = Inr p\<close> u s2 by (simp add: run_def Let_def)
        then have "log (snd (run env st)) = log st2 @ [Newline]"
          by (simp add: emit_def)
        moreover have "calm [Newline]" by (simp add: calm_def)
        ultimately show ?thesis by blast
      qed
      then obtain post where
        l3: "log (snd (run env st)) = log st2 @ post" and c3: "calm post" by blast
      have "new_events st (snd (run env st)) = (?hd # e1) @ e2 @ post"
        using l1 l2 l3 by (simp add: new_events_def)
      then show ?thesis
        using c1' c3 src unfolding calm_def by auto
    qed
  qed
qed

text \<open>
  The sample project without splash.png, both reads answered at once: the whole run
  makes the three icon calls and no other.
\<close>

lemma run_without_splash_example:
  "map srcPath (resize_calls (new_events ex_state (snd (run env_no_splash ex_state))))
     = [Some ''/p/icon.png'', Some ''/p/icon.png'', Some ''/p/icon.png'']
   \<and> (\<forall>opts res. Resize opts res \<in> set (new_events ex_state (snd (run env_no_splash ex_state)))
         \<longrightarrow> srcPath opts = Some ''/p/icon.png'')"
proof -
  have a: "icon (prog ex_state) = Some ''/p/icon.png''" "splash (prog ex_state) = Some ''/p/splash.png''"
    by (simp_all add: ex_state_def)
  have b: "\<forall>h. \<exists>d. fs_readFile env_no_splash h ''/p/icon.png'' = Inr d"
    by (simp add: env_no_splash_def ex_env_def)
  have c: "\<forall>h. \<exists>e. fs_readFile env_no_splash h ''/p/splash.png'' = Inl e"
    by (simp add: env_no_splash_def ex_env_def)
  have d: "\<forall>h t. read_answered env_no_splash h t"
    by (simp add: env_no_splash_def ex_env_def)
  have e: "map srcPath (resize_calls (new_events ex_state (snd (run env_no_splash ex_state))))
       = [Some ''/p/icon.png'', Some ''/p/icon.png'', Some ''/p/icon.png'']"
    by (simp add: model_defs sample_defs)
  from run_without_splash[OF a b c d] e show ?thesis by blast
qed

text \<open>
  C6. The claim: when the icon source is readable and the splash source is not,
  validation succeeds and clears the splash source, and generation then makes the icon
  calls only. Evaluated on the sample project without splash.png, where the answer to
  the read of splash.png arrives only after the chain has ended (validArtAssets does
  not return its promise, so nothing waits for that answer): the stage of validArtAssets
  is fulfilled, \<open>program.splash\<close> is still the path when processPlatformFor looks at
  it, no warning has been shown, and generate makes, after the three icon calls, a
  resize call with the missing splash.png as its source, which fails and ends the run
  with that error.
\<close>

theorem late_answer_resizes_splash:
  "icon (prog ex_state) = Some ''/p/icon.png''
   \<and> splash (prog ex_state) = Some ''/p/splash.png''
   \<and> fs_readFile env_no_splash_late [] ''/p/icon.png'' = Inr ''data''
   \<and> fs_readFile env_no_splash_late [] ''/p/splash.png'' = Inl (FsError ''ENOENT'')
   \<and> new_events ex_state (snd (run env_no_splash_late ex_state))
       = [Header ''Checking Project, Icon, and Splash'',
          Stat ''/p/platforms/android'' (Inr True),
          Stat ''/p/platforms/ios'' (Inr True),
          Success ''platforms found: android, ios'',
          ReadFile (Some ''/p/config.xml'') None,
          Success (''cordova'' @ [CHR 0x27] @ ''s /p/config.xml exists''),
          ReadFile (Some ''/p/config.xml'') None,
          Stat ''/p/platforms/android'' (Inr True),
          Stat ''/p/platforms/ios'' (Inr True),
          Header ''Generating icon assets for ios'',
          Resize \<lparr>srcPath = Some ''/p/icon.png'', dstPath = ''/p/platforms/ios/App/icons/a.png'',
                  quality = 1, format = ''png'', width = Some 29, height = Some 29\<rparr> None,
          Success ''a.png created'',
          Resize \<lparr>srcPath = Some ''/p/icon.png'', dstPath = ''/p/platforms/ios/App/icons/b.png'',
                  quality = 1, format = ''png'', width = Some 58, height = Some 58\<rparr> None,
          Success ''b.png created'',
          Resize \<lparr>srcPath = Some ''/p/icon.png'', dstPath = ''/p/platforms/ios/App/icons/c.png'',
                  quality = 1, format = ''png'', width = Some 87, height = Some 87\<rparr> None,
          Success ''c.png created'',
          Header ''Generating splash assets for ios'',
          Resize \<lparr>srcPath = Some ''/p/splash.png'', dstPath = ''/p/platforms/ios/App/splash/s.png'',
                  quality = 1, format = ''png'', width = Some 320, height = Some 480\<rparr>
                 (Some (ResizeError ''unable to open image'')),
          ErrorMsg (ResizeError ''unable to open image''), Newline]
   \<and> fst (run env_no_splash_late ex_state) = Some (ResizeError ''unable to open image'')
   \<and> splash (prog (snd (run env_no_splash_late ex_state))) = Some ''/p/splash.png''"
  by (simp add: model_defs sample_defs)

section \<open>Platform resolution: a platform root that does not exist\<close>

text \<open>
  Where the code and the specification agree: when every platform of platforms.json has
  its entry in \<open>rootDirectories\<close> and every probe is answered (\<open>dir path\<close>: the path is a
  directory), resolution is fulfilled with one resolved platform per descriptor, in
  the order of the descriptors, each added exactly when its root is a directory.
\<close>

lemma platformPaths_known:
  assumes known: "\<forall>p\<in>set ps. rootDirectories (name p) \<noteq> None"
  shows "\<exists>paths. platformPaths env root pn ps = Inr paths
           \<and> map fst paths = ps
           \<and> map (\<lambda>q. fst (snd q)) paths
               = map (\<lambda>p. path_join env root (the (rootDirectories (name p)))) ps"
  using known
proof (induction ps)
  case Nil
  then show ?case by simp
next
  case (Cons p ps)
  then obtain platformRoot where pr: "rootDirectories (name p) = Some platformRoot" by auto
  from Cons obtain paths where
    r: "platformPaths env root pn ps = Inr paths" and d: "map fst paths = ps" and
    a: "map (\<lambda>q. fst (snd q)) paths
          = map (\<lambda>p. path_join env root (the (rootDirectories (name p)))) ps"
    by auto
  show ?case
    using pr r d a by (simp add: Let_def)
qed

lemma statAll_all_answer:
  assumes stat: "\<forall>h path. fs_stat env h path = Inr (dir path)"
  shows "\<exists>rs xs st'. statAll env paths st = (rs, st') \<and> Q_all rs = Inr xs
           \<and> map descriptor xs = map fst paths
           \<and> map isAdded xs = map (\<lambda>q. dir (fst (snd q))) paths"
proof (induction paths arbitrary: st)
  case Nil
  then show ?case by simp
next
  case (Cons q paths)
  obtain platform platformPath iconPath' splashPath' where
    q: "q = (platform, platformPath, iconPath', splashPath')" by (cases q) auto
  let ?st1 = "emit (Stat platformPath (Inr (dir platformPath))) st"
  from Cons[of ?st1] obtain rs xs st' where
    r: "statAll env paths ?st1 = (rs, st')" and qa: "Q_all rs = Inr xs" and
    d: "map descriptor xs = map fst paths" and
    a: "map isAdded xs = map (\<lambda>q. dir (fst (snd q))) paths"
    by blast
  let ?x = "\<lparr>descriptor = platform, isAdded = dir platformPath,
             own_iconPath = path_join env platformPath iconPath',
             own_splashPath = path_join env platformPath splashPath'\<rparr>"
  have f1: "statAll env (q # paths) st = (Inr ?x # rs, st')"
    using q stat r by (simp add: Let_def)
  have f2: "Q_all (Inr ?x # rs) = Inr (?x # xs)" using qa by simp
  have f3: "map descriptor (?x # xs) = map fst (q # paths)" using d q by simp
  have f4: "map isAdded (?x # xs) = map (\<lambda>q. dir (fst (snd q))) (q # paths)"
    using a q by simp
  show ?case
    by (intro exI[of _ "Inr ?x # rs"] exI[of _ "?x # xs"] exI[of _ st'] conjI f1 f2 f3 f4)
qed

lemma getPlatforms_all_answer:
  assumes cfg: "config (prog st) = Some c"
      and known: "\<forall>p\<in>set (platformInfo env). rootDirectories (name p) \<noteq> None"
      and stat: "\<forall>h path. fs_stat env h path = Inr (dir path)"
  shows "\<exists>xs st'. getPlatforms env pn st = (Inr (Inr xs), st')
           \<and> map descriptor xs = platformInfo env
           \<and> map isAdded xs
               = map (\<lambda>p. dir (path_join env (path_dirname env c) (the (rootDirectories (name p)))))
                     (platformInfo env)"
proof -
  from platformPaths_known[OF known, of env "path_dirname env c" "js_toString (or_empty pn)"]
  obtain paths where
    p: "platformPaths env (path_dirname env c) (js_toString (or_empty pn)) (platformInfo env)
          = Inr paths" and
    pd: "map fst paths = platformInfo env" and
    pa: "map (\<lambda>q. fst (snd q)) paths
           = map (\<lambda>p. path_join env (path_dirname env c) (the (rootDirectories (name p))))
                 (platformInfo env)"
    by blast
  from statAll_all_answer[OF stat, of paths st] obtain rs xs st' where
    s: "statAll env paths st = (rs, st')" and q: "Q_all rs = Inr xs" and
    d: "map descriptor xs = map fst paths" and
    a: "map isAdded xs = map (\<lambda>q. dir (fst (snd q))) paths"
    by blast
  have "map (\<lambda>q. dir (fst (snd q))) paths = map dir (map (\<lambda>q. fst (snd q)) paths)"
    by simp
  also have "\<dots> = map (\<lambda>p. dir (path_join env (path_dirname env c)
                                  (the (rootDirectories (name p))))) (platformInfo env)"
    unfolding pa by simp
  finally have a': "map isAdded xs
      = map (\<lambda>p. dir (path_join env (path_dirname env c) (the (rootDirectories (name p)))))
            (platformInfo env)"
    using a by simp
  have "getPlatforms env pn st = (Inr (Inr xs), st')"
    using cfg p s q by (simp add: getPlatforms_def)
  with d pd a' show ?thesis by simp
qed

text \<open>
  C2. The claim: a probe that fails with "not found" leaves the platform not added and
  resolution goes on. Evaluated on the sample project where platforms/android does
  not exist and platforms/ios does: getPlatforms is rejected with ENOENT, and the run
  ends there with that error (\<open>fs.stat\<close> has no rejection handler in getPlatforms).
\<close>

theorem missing_root_rejects_resolution:
  "fst (getPlatforms env_android_missing (Str ''App'') ex_state) = Inr (Inl (FsError ''ENOENT''))
   \<and> new_events ex_state (snd (run env_android_missing ex_state))
       = [Header ''Checking Project, Icon, and Splash'',
          Stat ''/p/platforms/android'' (Inl (FsError ''ENOENT'')),
          Stat ''/p/platforms/ios'' (Inr True),
          ErrorMsg (FsError ''ENOENT''), Newline]
   \<and> fst (run env_android_missing ex_state) = Some (FsError ''ENOENT'')"
  by (simp add: model_defs sample_defs)

section \<open>Validation: a configuration file that does not exist\<close>

text \<open>
  C3. The claim: a missing configuration file fails the run at the config check, and no
  later stage runs. Evaluated on the sample project without config.xml:
  configFileExists is fulfilled with \<open>false\<close>, which nothing looks at; the icon and splash
  checks run next, and the run fails only when getProjectName tries to read the file.
\<close>

theorem missing_config_goes_on:
  "fst (configFileExists env_config_missing ex_state) = Inr False
   \<and> new_events ex_state (snd (run env_config_missing ex_state))
       = [Header ''Checking Project, Icon, and Splash'',
          Stat ''/p/platforms/android'' (Inr True),
          Stat ''/p/platforms/ios'' (Inr True),
          Success ''platforms found: android, ios'',
          ReadFile (Some ''/p/config.xml'') (Some (FsError ''ENOENT'')),
          ReadFile (Some ''/p/icon.png'') None,
          Success ''icon asset exists at: /p/icon.png'',
          ReadFile (Some ''/p/splash.png'') None,
          Success ''splash asset exists at: /p/splash.png'',
          ReadFile (Some ''/p/config.xml'') (Some (FsError ''ENOENT'')),
          ErrorMsg (FsError ''ENOENT''), Newline]
   \<and> fst (run env_config_missing ex_state) = Some (FsError ''ENOENT'')"
  by (simp add: model_defs sample_defs)

section \<open>Validation: no source at all\<close>

text \<open>
  C4. The claim: with both sources unreadable the run fails with NoAssetsError and
  generation never runs. Evaluated on the sample project without icon.png and
  splash.png: both checks answer \<open>true\<close> (they only warn), so the promise of
  validArtAssets is fulfilled, the stage succeeds, the run goes on through
  getProjectName and getPlatforms to generate (which finds nothing to do) and ends
  without any error.
\<close>

theorem no_sources_no_error:
  "fst (validArtAssets_promise env_no_sources ex_state) = Inr ()
   \<and> fst (validArtAssets env_no_sources ex_state) = Inr ()
   \<and> fst (run env_no_sources ex_state) = None
   \<and> prog (snd (run env_no_sources ex_state))
       = \<lparr>icon = None, splash = None, config = Some ''/p/config.xml''\<rparr>
   \<and> new_events ex_state (snd (run env_no_sources ex_state))
       = [Header ''Checking Project, Icon, and Splash'',
          Stat ''/p/platforms/android'' (Inr True),
          Stat ''/p/platforms/ios'' (Inr True),
          Success ''platforms found: android, ios'',
          ReadFile (Some ''/p/config.xml'') None,
          Success (''cordova'' @ [CHR 0x27] @ ''s /p/config.xml exists''),
          ReadFile (Some ''/p/icon.png'') (Some (FsError ''ENOENT'')),
          Warn ''icon asset was not specified'',
          ReadFile (Some ''/p/splash.png'') (Some (FsError ''ENOENT'')),
          Warn ''splash asset was not specified'',
          ReadFile (Some ''/p/config.xml'') None,
          Stat ''/p/platforms/android'' (Inr True),
          Stat ''/p/platforms/ios'' (Inr True),
          Newline]"
  by (simp add: model_defs sample_defs)

end
